theory Spec2Isabelle
  imports Main
begin

section \<open>Refresh lock table (source\_controller/coreservice/cache/business/lock.go)\<close>

text \<open>
  The Go struct holds \<^verbatim>\<open>refreshing map[string]bool\<close> and a mutex. The table is
  a partial map; each operation takes the table and returns the new one. The operations
  are modelled as they run one after the other (the mutex is not modelled); the map is
  taken to be allocated.
\<close>

type_synonym refreshingLock = "string \<rightharpoonup> bool"

definition canRefresh :: "refreshingLock \<Rightarrow> string \<Rightarrow> bool \<times> refreshingLock" where
  "canRefresh r key =
     (case r key of
        None \<Rightarrow> (True, r(key \<mapsto> False))
      | Some refreshing \<Rightarrow> (\<not> refreshing, r))"

definition setRefreshing :: "refreshingLock \<Rightarrow> string \<Rightarrow> refreshingLock" where
  "setRefreshing r key = r(key \<mapsto> True)"

definition setUnRefreshing :: "refreshingLock \<Rightarrow> string \<Rightarrow> refreshingLock" where
  "setUnRefreshing r key = r(key \<mapsto> False)"

text \<open>A caller's sequence of operations on the table, run in order.\<close>

datatype lock_op = CanRefresh string | SetRefreshing string | SetUnRefreshing string

fun lock_step :: "refreshingLock \<Rightarrow> lock_op \<Rightarrow> refreshingLock" where
  "lock_step r (CanRefresh k) = snd (canRefresh r k)"
| "lock_step r (SetRefreshing k) = setRefreshing r k"
| "lock_step r (SetUnRefreshing k) = setUnRefreshing r k"

fun lock_run :: "refreshingLock \<Rightarrow> lock_op list \<Rightarrow> refreshingLock" where
  "lock_run r [] = r"
| "lock_run r (x # xs) = lock_run (lock_step r x) xs"


section \<open>Event handler start-up (event\_server/distribution/event.go, Start)\<close>

text \<open>
  \<^verbatim>\<open>EventHandler\<close> holds pointers to the redis client, the distributer and the
  hash ring; a nil pointer is \<open>None\<close>. \<^verbatim>\<open>Start\<close> returns the error (nil is
  \<open>None\<close>) and, as its effect, whether the pump goroutine was spawned.
\<close>

record ('c, 'd, 'h) EventHandler =
  cache :: "'c option"
  distributer :: "'d option"
  hash :: "'h option"

definition Start :: "('c, 'd, 'h) EventHandler \<Rightarrow> string option \<times> bool" where
  "Start h =
     (if cache h = None then (Some ''redis cache not inited'', False)
      else if distributer h = None then (Some ''distributer not inited'', False)
      else if hash h = None then (Some ''hash not inited'', False)
      else (None, True))"


section \<open>Subscribers index (event\_server/distribution/distributer.go)\<close>

text \<open>
  \<^verbatim>\<open>subscribers map[string][]int64\<close>: key \<^verbatim>\<open>ownerid:event_type\<close> to the
  subscription ids. Reading a key that is not in a Go map gives the nil slice, which
  ranges as the empty one.
\<close>

type_synonym subscribers = "string \<rightharpoonup> int list"

definition subscriberKey :: "string \<Rightarrow> string \<Rightarrow> string" where
  "subscriberKey ownerid eventType = ownerid @ '':'' @ eventType"

definition bucket :: "subscribers \<Rightarrow> string \<Rightarrow> int list" where
  "bucket m k = (case m k of None \<Rightarrow> [] | Some v \<Rightarrow> v)"

definition addSubscriber :: "subscribers \<Rightarrow> string \<Rightarrow> string \<Rightarrow> int \<Rightarrow> subscribers" where
  "addSubscriber m ownerid eventType subid =
     (let subKey = subscriberKey ownerid eventType;
          subs = bucket m subKey
      in if subid \<in> set subs then m
         else m(subKey \<mapsto> bucket m subKey @ [subid]))"

definition remSubscriber :: "subscribers \<Rightarrow> string \<Rightarrow> string \<Rightarrow> int \<Rightarrow> subscribers" where
  "remSubscriber m ownerid eventType subid =
     (let subKey = subscriberKey ownerid eventType;
          subs = bucket m subKey;
          updated = filter (\<lambda>id. subid \<noteq> id) subs
      in m(subKey \<mapsto> updated))"

definition findSubscribers :: "subscribers \<Rightarrow> string \<Rightarrow> string \<Rightarrow> int list" where
  "findSubscribers m ownerid eventType = bucket m (ownerid @ '':'' @ eventType)"

text \<open>The registry's mutations of the index, run in order from some state.\<close>

datatype index_op = AddSub string string int | RemSub string string int

fun index_step :: "subscribers \<Rightarrow> index_op \<Rightarrow> subscribers" where
  "index_step m (AddSub ownerid eventType subid) = addSubscriber m ownerid eventType subid"
| "index_step m (RemSub ownerid eventType subid) = remSubscriber m ownerid eventType subid"

fun index_run :: "subscribers \<Rightarrow> index_op list \<Rightarrow> subscribers" where
  "index_run m [] = m"
| "index_run m (x # xs) = index_run (index_step m x) xs"


section \<open>Events (packages watch and metadata, as event.go and watch.go use them)\<close>

text \<open>
  A Go \<^verbatim>\<open>interface{}\<close> holding decoded JSON: nil, a bool, a number (kept as its
  literal), a string, a slice, or a \<^verbatim>\<open>map[string]interface{}\<close> (an association
  list, read by key). Indexing a Go map at a key it does not hold gives nil.
\<close>

datatype go_value =
    VNil
  | VBool bool
  | VNumber string
  | VString string
  | VSlice "go_value list"
  | VMap "(string \<times> go_value) list"

definition map_index :: "(string \<times> go_value) list \<Rightarrow> string \<Rightarrow> go_value" where
  "map_index m k = (case map_of m k of None \<Rightarrow> VNil | Some v \<Rightarrow> v)"

text \<open>
  \<^verbatim>\<open>watch.CursorType\<close> and \<^verbatim>\<open>watch.EventType\<close> are string types with named
  constants; the constants that event.go switches on are constructors, every other value
  is the last constructor.
\<close>

datatype CursorType =
    Host | ModuleHostRelation | Biz | Set | Module | ObjectBase | OtherCursorType string

datatype watch_EventType = Create | Update | Delete | OtherEventType string

text \<open>A \<^verbatim>\<open>time.Time\<close>: seconds since the epoch and the nanoseconds within the second.\<close>

record Time =
  sec :: int
  nsec :: nat

definition Unix :: "Time \<Rightarrow> int" where
  "Unix t = sec t"

record EventData =
  PreData :: go_value
  CurData :: go_value

record EventInst =
  ID :: int
  Cursor :: string
  EventType :: string
  ObjType :: string
  Action :: string
  ActionTime :: Time
  Data :: "EventData list"

record DistInst =
  EventInst :: EventInst
  DstbID :: int
  SubscriptionID :: int

record WatchEventDetail =
  Cursor :: string
  Resource :: CursorType
  EventType :: watch_EventType
  Detail :: go_value

text \<open>
  Modelled from the spec: the string constants of packages \<^verbatim>\<open>metadata\<close> and
  \<^verbatim>\<open>common\<close> are not among the sources. Each is a definition under the source's
  name, with the token the spec's table gives it (section 4.F); the theorems name the
  constants, never the literals.
\<close>

definition EventTypeInstData :: string where "EventTypeInstData = ''instance-data''"
definition EventTypeRelation :: string where "EventTypeRelation = ''relation''"
definition EventObjTypeModuleTransfer :: string where "EventObjTypeModuleTransfer = ''module-transfer''"
definition EventActionCreate :: string where "EventActionCreate = ''create''"
definition EventActionUpdate :: string where "EventActionUpdate = ''update''"
definition EventActionDelete :: string where "EventActionDelete = ''delete''"
definition BKInnerObjIDHost :: string where "BKInnerObjIDHost = ''host''"
definition BKInnerObjIDApp :: string where "BKInnerObjIDApp = ''app''"
definition BKInnerObjIDSet :: string where "BKInnerObjIDSet = ''set''"
definition BKInnerObjIDModule :: string where "BKInnerObjIDModule = ''module''"
definition BKInnerObjIDObject :: string where "BKInnerObjIDObject = ''object''"
definition BKObjIDField :: string where "BKObjIDField = ''bk_obj_id''"

text \<open>
  What a Go call does: it returns, or it panics (a nil pointer dereference, a failed
  type assertion). A returned \<^verbatim>\<open>error\<close> is part of the returned value.
\<close>

datatype panic = NilDereference | InterfaceConversion

datatype 'a outcome = Returned 'a | Panicked panic

datatype error =
    CantParseDistInst go_value go_value
  | SubscriptionNotFound int
  | NotConfirmHTTP string
  | BuildRegexp error
  | NotConfirmRegular string
  | InvalidSubscribersKey string
  | QuerySubscriberCursor string error
  | InvalidCursor string error
  | LibraryError string


section \<open>Watch response (event\_server/service/watch.go, generateResp)\<close>

text \<open>
  \<^verbatim>\<open>events\<close> is a slice of pointers: a nil pointer is \<open>None\<close>, and reading
  \<^verbatim>\<open>events[0].Cursor\<close> through it panics. The function builds the
  \<^verbatim>\<open>watch.WatchResp\<close> that it hands to \<^verbatim>\<open>metadata.NewSuccessResp\<close>; the
  result here is that \<^verbatim>\<open>WatchResp\<close>. \<^verbatim>\<open>watch.NoEventCursor\<close> is a constant of
  a package that is not among the sources: it is the first argument.
\<close>

record WatchResp =
  Watched :: bool
  Events :: "WatchEventDetail option list"

text \<open>The composite literal with \<^verbatim>\<open>Cursor\<close> and \<^verbatim>\<open>Resource\<close> set, the rest zero.\<close>

definition cursorOnly :: "string \<Rightarrow> CursorType \<Rightarrow> WatchEventDetail" where
  "cursorOnly c rsc = \<lparr>Cursor = c, Resource = rsc, EventType = OtherEventType [], Detail = VNil\<rparr>"

definition generateResp ::
    "string \<Rightarrow> string \<Rightarrow> CursorType \<Rightarrow> WatchEventDetail option list \<Rightarrow> WatchResp outcome" where
  "generateResp NoEventCursor startCursor rsc events =
     (if length events = 0 then
        (if length startCursor = 0
         then Returned \<lparr>Watched = False, Events = [Some (cursorOnly NoEventCursor rsc)]\<rparr>
         else Returned \<lparr>Watched = False, Events = [Some (cursorOnly startCursor rsc)]\<rparr>)
      else
        (case hd events of
           None \<Rightarrow> Panicked NilDereference
         | Some first \<Rightarrow>
             if Cursor first = NoEventCursor then
               (if length startCursor = 0
                then Returned \<lparr>Watched = False, Events = [Some (cursorOnly NoEventCursor rsc)]\<rparr>
                else Returned \<lparr>Watched = False, Events = [Some (cursorOnly startCursor rsc)]\<rparr>)
             else Returned \<lparr>Watched = True, Events = events\<rparr>))"


section \<open>From event to dist inst (event.go, getDistInst)\<close>

text \<open>
  \<^verbatim>\<open>event\<close> is not nil: the pump in \<^verbatim>\<open>Start\<close> skips a nil event before it calls
  \<^verbatim>\<open>handleEvent\<close>. The type assertion \<^verbatim>\<open>.(map[string]interface{})\<close> is the
  two-valued form (it yields \<^verbatim>\<open>ok\<close>); the assertion \<^verbatim>\<open>.(string)\<close> on
  \<^verbatim>\<open>bk_obj_id\<close> is the one-valued form, which panics on a value that is not a
  string. The result is the pair the function returns: the slice and the error.
\<close>

definition getDistInst :: "EventInst \<Rightarrow> (DistInst list \<times> error option) outcome" where
  "getDistInst event =
     (let distInst = \<lparr>EventInst = event, DstbID = 0, SubscriptionID = 0\<rparr> in
      if EventInst.EventType event = EventTypeInstData \<and> ObjType event = BKInnerObjIDObject then
        (if length (Data event) \<le> 0 then Returned ([], None)
         else
           (case (if Action event = EventActionDelete
                  then PreData (hd (Data event)) else CurData (hd (Data event))) of
              VMap m \<Rightarrow>
                (case map_index m BKObjIDField of
                   VNil \<Rightarrow> Returned ([distInst], None)
                 | VString s \<Rightarrow>
                     Returned ([distInst\<lparr>EventInst := (EventInst distInst)\<lparr>ObjType := s\<rparr>\<rparr>], None)
                 | _ \<Rightarrow> Panicked InterfaceConversion)
            | _ \<Rightarrow>
                Returned ([], Some (CantParseDistInst (PreData (hd (Data event)))
                                                     (CurData (hd (Data event)))))))
      else Returned ([distInst], None))"


section \<open>External ingestion (event.go, EventHandler.Handle)\<close>

text \<open>
  The main event queue holds JSON texts. A text is kept as the value it encodes, tagged
  with the Go type it was marshaled from, so that the text of a
  \<^verbatim>\<open>WatchEventDetail\<close> and the text of an \<^verbatim>\<open>EventInst\<close> are told apart.
  \<^verbatim>\<open>LPush\<close> puts a text at the head of the list.
\<close>

datatype json_text = JSON_WatchEventDetail WatchEventDetail | JSON_EventInst EventInst

text \<open>
  What the surroundings answer in iteration \<open>i\<close> of the loop: the clock
  (\<^verbatim>\<open>metadata.Now()\<close>), whether \<^verbatim>\<open>json.Marshal\<close> fails on the event, whether
  the \<^verbatim>\<open>LPush\<close> fails.
\<close>

record handle_env =
  Now :: "nat \<Rightarrow> Time"
  marshal_fails :: "WatchEventDetail \<Rightarrow> bool"
  lpush_fails :: "nat \<Rightarrow> bool"

text \<open>
  The inner switch on \<^verbatim>\<open>event.EventType\<close>, which the source repeats word for word
  under each resource; \<open>None\<close> is its \<^verbatim>\<open>default: continue\<close>.
\<close>

definition switchEventType :: "EventInst \<Rightarrow> watch_EventType \<Rightarrow> EventInst option" where
  "switchEventType eventInst t =
     (case t of
        Create \<Rightarrow> Some (eventInst\<lparr>Action := EventActionCreate\<rparr>)
      | Update \<Rightarrow> Some (eventInst\<lparr>Action := EventActionUpdate\<rparr>)
      | Delete \<Rightarrow> Some (eventInst\<lparr>Action := EventActionDelete\<rparr>)
      | OtherEventType _ \<Rightarrow> None)"

text \<open>The \<^verbatim>\<open>eventInst\<close> that one iteration builds; \<open>None\<close> when it continues.\<close>

definition buildEventInst :: "Time \<Rightarrow> WatchEventDetail \<Rightarrow> EventInst option" where
  "buildEventInst now event =
     (let eventInst = \<lparr>ID = 0, Cursor = Cursor event, EventType = [], ObjType = [],
            Action = [], ActionTime = now,
            Data = [\<lparr>PreData = VNil, CurData = Detail event\<rparr>]\<rparr>
      in case Resource event of
           Host \<Rightarrow>
             switchEventType (eventInst\<lparr>EventInst.EventType := EventTypeInstData,
               ObjType := BKInnerObjIDHost\<rparr>) (EventType event)
         | ModuleHostRelation \<Rightarrow>
             switchEventType (eventInst\<lparr>EventInst.EventType := EventTypeRelation,
               ObjType := EventObjTypeModuleTransfer\<rparr>) (EventType event)
         | Biz \<Rightarrow>
             switchEventType (eventInst\<lparr>EventInst.EventType := EventTypeInstData,
               ObjType := BKInnerObjIDApp\<rparr>) (EventType event)
         | Set \<Rightarrow>
             switchEventType (eventInst\<lparr>EventInst.EventType := EventTypeInstData,
               ObjType := BKInnerObjIDSet\<rparr>) (EventType event)
         | Module \<Rightarrow>
             switchEventType (eventInst\<lparr>EventInst.EventType := EventTypeInstData,
               ObjType := BKInnerObjIDModule\<rparr>) (EventType event)
         | ObjectBase \<Rightarrow>
             switchEventType (eventInst\<lparr>EventInst.EventType := EventTypeInstData,
               ObjType := BKInnerObjIDObject\<rparr>) (EventType event)
         | OtherCursorType _ \<Rightarrow> None)"

text \<open>
  The loop over \<^verbatim>\<open>events\<close> from iteration \<open>i\<close> on, with the main queue \<open>q\<close>. It
  returns nil (\<open>None\<close>) with the queue it leaves, or panics on a nil element. The
  source marshals \<^verbatim>\<open>event\<close>, the loop variable, and pushes that text.
\<close>

fun Handle ::
    "handle_env \<Rightarrow> nat \<Rightarrow> WatchEventDetail option list \<Rightarrow> json_text list \<Rightarrow>
     error option outcome \<times> json_text list" where
  "Handle env i [] q = (Returned None, q)"
| "Handle env i (None # events) q = (Panicked NilDereference, q)"
| "Handle env i (Some event # events) q =
     (case buildEventInst (Now env i) event of
        None \<Rightarrow> Handle env (Suc i) events q
      | Some eventInst \<Rightarrow>
          if marshal_fails env event then Handle env (Suc i) events q
          else let eventData = JSON_WatchEventDetail event in
               if lpush_fails env i then Handle env (Suc i) events q
               else Handle env (Suc i) events (eventData # q))"


section \<open>Strings (the Go library calls the sources make)\<close>

text \<open>
  \<^verbatim>\<open>strings.Split(s, sep)\<close> for a separator of one byte: the pieces of \<open>s\<close> between
  the separators, one more than there are separators.
\<close>

fun Split :: "string \<Rightarrow> char \<Rightarrow> string list" where
  "Split [] sep = [[]]"
| "Split (c # cs) sep =
     (if c = sep then [] # Split cs sep
      else (case Split cs sep of [] \<Rightarrow> [[c]] | w # ws \<Rightarrow> (c # w) # ws))"

text \<open>
  Decimal digits of a natural number, and \<^verbatim>\<open>strconv.Itoa\<close> (which is also
  \<^verbatim>\<open>strconv.FormatInt(i, 10)\<close> and \<^verbatim>\<open>fmt.Sprint(i)\<close> of an integer).
\<close>

fun digits :: "nat \<Rightarrow> string" where
  "digits n =
     (if n < 10 then [''0123456789'' ! n]
      else digits (n div 10) @ [''0123456789'' ! (n mod 10)])"

declare digits.simps [simp del]

definition Itoa :: "int \<Rightarrow> string" where
  "Itoa i = (if i < 0 then CHR ''-'' # digits (nat (- i)) else digits (nat i))"


section \<open>Subscriptions and the registry (distributer.go, onUpsertSubscriptions)\<close>

text \<open>
  \<^verbatim>\<open>metadata.Subscription\<close>, with the fields the sources read. Its methods
  \<^verbatim>\<open>GetCacheKey\<close> and \<^verbatim>\<open>GetTimeout\<close> are not among the sources:
  \<^verbatim>\<open>GetCacheKey\<close> is an argument of the handler below.
\<close>

record Subscription =
  SubscriptionID :: int
  OwnerID :: string
  SubscriptionForm :: string
  CallbackURL :: string
  ConfirmMode :: string
  ConfirmPattern :: string
  TimeOutSeconds :: int

text \<open>
  \<^verbatim>\<open>watch.Cursor\<close>, of which the sources read \<^verbatim>\<open>ClusterTime.Sec\<close>; the rest of
  the cursor is the field \<open>Oid\<close>.
\<close>

record TimeStamp =
  Sec :: nat
  Nano :: nat

record Cursor =
  ClusterTime :: TimeStamp
  Oid :: string

record Distributer =
  subscriptions :: "int \<rightharpoonup> Subscription"
  subscribers :: subscribers
  resourceCursors :: "CursorType \<rightharpoonup> Cursor"

text \<open>
  Modelled from the spec: \<^verbatim>\<open>util.CalSliceDiff\<close> is not among the sources. The spec
  (section 4.D) has the handler "diff old vs new event-type sets and call addSubscriber /
  remSubscriber on the symmetric differences": \<open>subs\<close> are the old elements that are not
  new, \<open>plugs\<close> the new elements that are not old.
\<close>

definition CalSliceDiff :: "string list \<Rightarrow> string list \<Rightarrow> string list \<times> string list" where
  "CalSliceDiff oldslice newslice =
     (filter (\<lambda>a. a \<notin> set newslice) oldslice, filter (\<lambda>b. b \<notin> set oldslice) newslice)"

text \<open>
  The calls that \<^verbatim>\<open>onUpsertSubscriptions\<close> makes on the subscribers index, in the
  order of its loops: the insert branch adds every event type of the form; the update
  branch removes \<open>subs\<close>, then adds \<open>plugs\<close>, both under the owner id of the new
  document.
\<close>

definition upsertCalls :: "Subscription option \<Rightarrow> Subscription \<Rightarrow> index_op list" where
  "upsertCalls old subscription =
     (case old of
        None \<Rightarrow>
          (let eventTypes = Split (SubscriptionForm subscription) CHR '','' in
           map (\<lambda>eventType. AddSub (OwnerID subscription) eventType (SubscriptionID subscription))
             eventTypes)
      | Some oldSubscription \<Rightarrow>
          (let oldEventTypes = Split (SubscriptionForm oldSubscription) CHR '','';
               eventTypes = Split (SubscriptionForm subscription) CHR '','';
               (subs, plugs) = CalSliceDiff oldEventTypes eventTypes
           in map (\<lambda>eventType. RemSub (OwnerID subscription) eventType (SubscriptionID subscription))
                subs
              @ map (\<lambda>eventType. AddSub (OwnerID subscription) eventType (SubscriptionID subscription))
                  plugs))"

definition onUpsertSubscriptions ::
    "(Subscription \<Rightarrow> string) \<Rightarrow> Distributer \<Rightarrow> Subscription \<Rightarrow> Distributer" where
  "onUpsertSubscriptions GetCacheKey d subscription =
     (case subscriptions d (SubscriptionID subscription) of
        None \<Rightarrow>
          d\<lparr>subscriptions := (subscriptions d)(SubscriptionID subscription \<mapsto> subscription),
            subscribers := index_run (subscribers d) (upsertCalls None subscription)\<rparr>
      | Some oldSubscription \<Rightarrow>
          d\<lparr>subscriptions :=
              (if GetCacheKey subscription \<noteq> GetCacheKey oldSubscription
               then (subscriptions d)(SubscriptionID subscription \<mapsto> subscription)
               else subscriptions d),
            subscribers :=
              index_run (subscribers d) (upsertCalls (Some oldSubscription) subscription)\<rparr>)"


section \<open>Resource cursor tracker (distributer.go, getResourceCursor)\<close>

text \<open>
  What the function calls outside the sources: \<^verbatim>\<open>d.cache.Get(key).Result()\<close> (the
  value and the error), \<^verbatim>\<open>cursor.Decode(val)\<close> (the cursor it fills and the error),
  \<^verbatim>\<open>watch.ParseCursorTypeFromEventType\<close>, and the key prefix constant.
\<close>

record cursor_env =
  cache_Get :: "string \<Rightarrow> string \<times> error option"
  Decode :: "string \<Rightarrow> Cursor \<times> error option"
  ParseCursorTypeFromEventType :: "string \<Rightarrow> CursorType"
  EventCacheSubscriberCursorPrefix :: string

text \<open>
  \<^verbatim>\<open>fmt.Sprintf("%s:%s", cursorKey, subid)\<close> with \<^verbatim>\<open>subid\<close> an \<^verbatim>\<open>int64\<close>: the
  verb \<^verbatim>\<open>%s\<close> does not fit an integer, and \<^verbatim>\<open>fmt\<close> prints the operand as
  \<^verbatim>\<open>%!s(int64=7)\<close>.
\<close>

definition subscriberCursorKey :: "string \<Rightarrow> int \<Rightarrow> string" where
  "subscriberCursorKey cursorKey subid = cursorKey @ '':'' @ ''%!s(int64='' @ Itoa subid @ '')''"

text \<open>
  The update of \<^verbatim>\<open>d.resourceCursors[cursorType]\<close> under the mutex: a first cursor is
  stored, a later one replaces the stored one only if its seconds are strictly smaller.
\<close>

definition keepOldest ::
    "CursorType \<Rightarrow> Cursor \<Rightarrow> (CursorType \<rightharpoonup> Cursor) \<Rightarrow> (CursorType \<rightharpoonup> Cursor)" where
  "keepOldest cursorType subCursor rc =
     (case rc cursorType of
        None \<Rightarrow> rc(cursorType \<mapsto> subCursor)
      | Some oldestCursor \<Rightarrow>
          if Sec (ClusterTime subCursor) < Sec (ClusterTime oldestCursor)
          then rc(cursorType \<mapsto> subCursor) else rc)"

text \<open>The inner loop over the subscription ids of one bucket; \<open>Some e\<close> is the early return.\<close>

fun rangeSubids ::
    "cursor_env \<Rightarrow> CursorType \<Rightarrow> string \<Rightarrow> int list \<Rightarrow> (CursorType \<rightharpoonup> Cursor) \<Rightarrow>
     error option \<times> (CursorType \<rightharpoonup> Cursor)" where
  "rangeSubids env cursorType cursorKey [] rc = (None, rc)"
| "rangeSubids env cursorType cursorKey (subid # v) rc =
     (case cache_Get env (subscriberCursorKey cursorKey subid) of
        (val, Some err) \<Rightarrow>
          (Some (QuerySubscriberCursor (subscriberCursorKey cursorKey subid) err), rc)
      | (val, None) \<Rightarrow>
          if length val \<noteq> 0 then
            (case Decode env val of
               (cursor, Some err) \<Rightarrow>
                 (Some (InvalidCursor (subscriberCursorKey cursorKey subid) err), rc)
             | (cursor, None) \<Rightarrow>
                 rangeSubids env cursorType cursorKey v (keepOldest cursorType cursor rc))
          else rangeSubids env cursorType cursorKey v rc)"

text \<open>
  The outer loop over \<^verbatim>\<open>d.subscribers\<close>. Go ranges over a map in an order it does
  not specify: \<open>keys\<close> is the order of this run. The source writes
  \<^verbatim>\<open>strings.Split(k)\<close>; the separator is the colon that \<^verbatim>\<open>subscriberKey\<close> puts
  between owner id and event type.
\<close>

fun rangeSubscribers ::
    "cursor_env \<Rightarrow> CursorType \<Rightarrow> subscribers \<Rightarrow> string list \<Rightarrow> (CursorType \<rightharpoonup> Cursor) \<Rightarrow>
     error option \<times> (CursorType \<rightharpoonup> Cursor)" where
  "rangeSubscribers env cursorType m [] rc = (None, rc)"
| "rangeSubscribers env cursorType m (k # ks) rc =
     (let owneridEventType = Split k CHR '':'' in
      if length owneridEventType \<noteq> 2 then (Some (InvalidSubscribersKey k), rc)
      else if ParseCursorTypeFromEventType env (owneridEventType ! 1) \<noteq> cursorType
      then rangeSubscribers env cursorType m ks rc
      else
        (case rangeSubids env cursorType (EventCacheSubscriberCursorPrefix env @ k) (bucket m k) rc of
           (Some err, rc') \<Rightarrow> (Some err, rc')
         | (None, rc') \<Rightarrow> rangeSubscribers env cursorType m ks rc'))"

text \<open>
  The function returns the pair (cursor, error), a nil cursor being \<open>None\<close>, and leaves
  the distributer with the \<^verbatim>\<open>resourceCursors\<close> it wrote, also when it returns an
  error.
\<close>

definition getResourceCursor ::
    "cursor_env \<Rightarrow> string list \<Rightarrow> Distributer \<Rightarrow> CursorType \<Rightarrow>
     (Cursor option \<times> error option) \<times> Distributer" where
  "getResourceCursor env keys d cursorType =
     (case rangeSubscribers env cursorType (subscribers d) keys (resourceCursors d) of
        (Some err, rc) \<Rightarrow> ((None, Some err), d\<lparr>resourceCursors := rc\<rparr>)
      | (None, rc) \<Rightarrow> ((rc cursorType, None), d\<lparr>resourceCursors := rc\<rparr>))"

text \<open>
  For the statement about the tracker: the persisted cursors that a run reads, in the
  order it reads them (the non-empty values of the ids in the buckets of the cursor
  type), and the condition under which no read, decode or key stops it early.
\<close>

definition bucketCursors :: "cursor_env \<Rightarrow> string \<Rightarrow> int list \<Rightarrow> Cursor list" where
  "bucketCursors env cursorKey v =
     map (\<lambda>subid. fst (Decode env (fst (cache_Get env (subscriberCursorKey cursorKey subid)))))
       (filter (\<lambda>subid. fst (cache_Get env (subscriberCursorKey cursorKey subid)) \<noteq> []) v)"

definition matchingKeys :: "cursor_env \<Rightarrow> CursorType \<Rightarrow> string list \<Rightarrow> string list" where
  "matchingKeys env cursorType keys =
     filter (\<lambda>k. ParseCursorTypeFromEventType env (Split k CHR '':'' ! 1) = cursorType) keys"

definition persistedCursors ::
    "cursor_env \<Rightarrow> CursorType \<Rightarrow> subscribers \<Rightarrow> string list \<Rightarrow> Cursor list" where
  "persistedCursors env cursorType m keys =
     concat (map (\<lambda>k. bucketCursors env (EventCacheSubscriberCursorPrefix env @ k) (bucket m k))
       (matchingKeys env cursorType keys))"

definition readable :: "cursor_env \<Rightarrow> string \<Rightarrow> int list \<Rightarrow> bool" where
  "readable env cursorKey v =
     list_all (\<lambda>subid.
         snd (cache_Get env (subscriberCursorKey cursorKey subid)) = None
         \<and> (fst (cache_Get env (subscriberCursorKey cursorKey subid)) = []
            \<or> snd (Decode env (fst (cache_Get env (subscriberCursorKey cursorKey subid)))) = None))
       v"

definition allReadable ::
    "cursor_env \<Rightarrow> CursorType \<Rightarrow> subscribers \<Rightarrow> string list \<Rightarrow> bool" where
  "allReadable env cursorType m keys =
     (list_all (\<lambda>k. length (Split k CHR '':'') = 2) keys
      \<and> list_all (\<lambda>k. readable env (EventCacheSubscriberCursorPrefix env @ k) (bucket m k))
          (matchingKeys env cursorType keys))"

text \<open>
  The redis client (gopkg.in/redis.v5) is not part of the repository. Its \<^verbatim>\<open>Get\<close>
  on a store \<open>s\<close> of string keys answers a key that is not there with the error
  \<^verbatim>\<open>redis.Nil\<close> and the empty value.
\<close>

definition redis_Get :: "(string \<rightharpoonup> string) \<Rightarrow> string \<Rightarrow> string \<times> error option" where
  "redis_Get s key = (case s key of None \<Rightarrow> ([], Some (LibraryError ''redis: nil'')) | Some val \<Rightarrow> (val, None))"


section \<open>Event sender (event.go, EventSender.send and EventSender.run)\<close>

text \<open>
  Modelled from the spec: the constants \<^verbatim>\<open>metadata.ConfirmModeHTTPStatus\<close> and
  \<^verbatim>\<open>metadata.ConfirmModeRegular\<close> and the method \<^verbatim>\<open>Subscription.GetTimeout\<close>
  are not among the sources. The spec has the two confirm modes "HTTP-status" and
  "regular-expression", and the timeout "TimeOutSeconds seconds (default 10)". A
  \<^verbatim>\<open>time.Duration\<close> is a number of nanoseconds.
\<close>

definition ConfirmModeHTTPStatus :: string where "ConfirmModeHTTPStatus = ''HTTP-status''"
definition ConfirmModeRegular :: string where "ConfirmModeRegular = ''regular-expression''"

definition Second :: int where "Second = 1000000000"
definition GetTimeout :: "Subscription \<Rightarrow> int" where
  "GetTimeout subscription = TimeOutSeconds subscription * Second"

definition defaultSendTimeout :: int where "defaultSendTimeout = 10 * Second"
definition defaultFusingEventExpireSec :: int where "defaultFusingEventExpireSec = 5 * 60"

record Request =
  Method :: string
  URL :: string
  Body :: string

text \<open>
  An HTTP response: the status code, and what \<^verbatim>\<open>ioutil.ReadAll(resp.Body)\<close>
  gives (the bytes and the error).
\<close>

record Response =
  StatusCode :: int
  ReadAll :: "string \<times> error option"

text \<open>
  What the sender calls outside the sources, each with the pair (value, error) that the
  Go call returns: the hash ring, the registry's lookup (nil is \<open>None\<close>), the JSON codec,
  \<^verbatim>\<open>http.NewRequest\<close>, the HTTP client, \<^verbatim>\<open>regexp.Compile\<close> and
  \<^verbatim>\<open>Regexp.Match\<close>; and the constants of package \<^verbatim>\<open>types\<close>.
\<close>

record 're sender_env =
  IsMatch :: "string \<Rightarrow> bool"
  FindSubscription :: "int \<Rightarrow> Subscription option"
  json_Marshal :: "DistInst \<Rightarrow> string \<times> error option"
  json_Unmarshal :: "string \<Rightarrow> DistInst \<times> error option"
  http_NewRequest :: "string \<Rightarrow> string \<Rightarrow> string \<Rightarrow> Request \<times> error option"
  DoWithTimeout :: "int \<Rightarrow> Request \<Rightarrow> Response \<times> error option"
  regexp_Compile :: "string \<Rightarrow> 're \<times> error option"
  regexp_Match :: "'re \<Rightarrow> string \<Rightarrow> bool"
  EventCacheSubscriberEventQueueKeyPrefix :: string
  EventCacheDistCallBackCountPrefix :: string
  NilStr :: string

text \<open>
  What the sender changes: the lists and the hashes of the cache (a field that was never
  incremented reads 0), and the requests handed to the HTTP client so far.
\<close>

record sender_state =
  lists :: "string \<Rightarrow> string list"
  hashes :: "string \<Rightarrow> string \<Rightarrow> int"
  posts :: "Request list"

definition HIncrBy :: "sender_state \<Rightarrow> string \<Rightarrow> string \<Rightarrow> int \<Rightarrow> sender_state" where
  "HIncrBy st key field incr =
     st\<lparr>hashes := (hashes st)(key := (hashes st key)(field := hashes st key field + incr))\<rparr>"

text \<open>
  \<^verbatim>\<open>BLPop(timeout, key).Val()\<close>: the key and the head of the list, which it takes
  off; the empty slice when the list stays empty until the timeout.
\<close>

definition BLPop :: "sender_state \<Rightarrow> string \<Rightarrow> string list \<times> sender_state" where
  "BLPop st key =
     (case lists st key of
        [] \<Rightarrow> ([], st)
      | x # xs \<Rightarrow> ([key, x], st\<lparr>lists := (lists st)(key := xs)\<rparr>))"

definition statIncrease :: "'re sender_env \<Rightarrow> sender_state \<Rightarrow> int \<Rightarrow> string \<Rightarrow> sender_state" where
  "statIncrease env st subid key = HIncrBy st (EventCacheDistCallBackCountPrefix env @ Itoa subid) key 1"

definition increaseTotal :: "'re sender_env \<Rightarrow> sender_state \<Rightarrow> int \<Rightarrow> sender_state" where
  "increaseTotal env st subid = statIncrease env st subid ''total''"

definition increaseFailure :: "'re sender_env \<Rightarrow> sender_state \<Rightarrow> int \<Rightarrow> sender_state" where
  "increaseFailure env st subid = statIncrease env st subid ''failue''"

text \<open>
  The body of \<^verbatim>\<open>send\<close> after \<^verbatim>\<open>increaseTotal\<close>. It gives the value of
  \<^verbatim>\<open>errFinal\<close> when the function returns, the error it returns, and the state. Each
  \<open>err\<close> below is the Go variable of that name at that point: the outer one, last
  assigned by \<^verbatim>\<open>ioutil.ReadAll\<close>, in the HTTP-status branch; the one that
  \<^verbatim>\<open>pattern, err := regexp.Compile(...)\<close> declares, in the regular branch.
\<close>

definition sendBody ::
    "'re sender_env \<Rightarrow> Subscription \<Rightarrow> sender_state \<Rightarrow> DistInst \<Rightarrow>
     error option \<times> error option \<times> sender_state" where
  "sendBody env subscription st dist =
     (let (distData, err) = json_Marshal env dist in
      if err \<noteq> None then (err, err, st)
      else
      let (req, err) = http_NewRequest env ''POST'' (CallbackURL subscription) distData in
      if err \<noteq> None then (err, err, st)
      else
      let duration = (if TimeOutSeconds subscription = 0 then defaultSendTimeout
                      else GetTimeout subscription);
          (resp, err) = DoWithTimeout env duration req;
          st = st\<lparr>posts := posts st @ [req]\<rparr>
      in
      if err \<noteq> None then (err, err, st)
      else
      let (respData, err) = ReadAll resp in
      if err \<noteq> None then (err, err, st)
      else
      if ConfirmMode subscription = ConfirmModeHTTPStatus then
        (if Itoa (StatusCode resp) \<noteq> ConfirmPattern subscription
         then (err, Some (NotConfirmHTTP respData), st)
         else (None, None, st))
      else if ConfirmMode subscription = ConfirmModeRegular then
        (let (pattern, err) = regexp_Compile env (ConfirmPattern subscription) in
         if err \<noteq> None then (err, Some (BuildRegexp (the err)), st)
         else if \<not> regexp_Match env pattern respData
         then (err, Some (NotConfirmRegular respData), st)
         else (None, None, st))
      else (None, None, st))"

text \<open>
  \<^verbatim>\<open>send\<close>: the lookup, \<^verbatim>\<open>increaseTotal\<close>, the body, and the deferred function,
  which calls \<^verbatim>\<open>increaseFailure\<close> when \<^verbatim>\<open>errFinal\<close> is not nil. It gives the
  returned error and the state.
\<close>

definition send ::
    "'re sender_env \<Rightarrow> int \<Rightarrow> sender_state \<Rightarrow> DistInst \<Rightarrow> error option \<times> sender_state" where
  "send env subid st dist =
     (case FindSubscription env subid of
        None \<Rightarrow> (Some (SubscriptionNotFound subid), st)
      | Some subscription \<Rightarrow>
          (let st = increaseTotal env st (Subscription.SubscriptionID subscription);
               (errFinal, ret, st) = sendBody env subscription st dist
           in (ret, if errFinal \<noteq> None
                    then increaseFailure env st (Subscription.SubscriptionID subscription)
                    else st)))"

text \<open>
  One iteration of the loop of \<^verbatim>\<open>run\<close>, with the clock reading \<open>now\<close> that
  \<^verbatim>\<open>time.Now()\<close> gives in it. The loop itself never returns.
\<close>

definition runStep :: "'re sender_env \<Rightarrow> int \<Rightarrow> Time \<Rightarrow> sender_state \<Rightarrow> sender_state" where
  "runStep env subid now st =
     (if \<not> IsMatch env (Itoa subid) then st
      else
        (let (distDatas, st) = BLPop st (EventCacheSubscriberEventQueueKeyPrefix env @ Itoa subid) in
         if length distDatas = 0 \<or> distDatas ! 1 = NilStr env \<or> length (distDatas ! 1) = 0 then st
         else
           (let distData = distDatas ! 1;
                (dist, err) = json_Unmarshal env distData
            in if err \<noteq> None then st
               else if Unix now - Unix (ActionTime (EventInst dist)) > defaultFusingEventExpireSec
               then st
               else snd (send env subid st dist))))"

text \<open>The first iterations of the loop, one clock reading for each.\<close>

fun run :: "'re sender_env \<Rightarrow> int \<Rightarrow> Time list \<Rightarrow> sender_state \<Rightarrow> sender_state" where
  "run env subid [] st = st"
| "run env subid (now # nows) st = run env subid nows (runStep env subid now st)"


section \<open>The spec's scenarios S1 and S2 as inputs\<close>

text \<open>
  Scenario S1 of the spec (section 8): the subscription with id 7 of owner \<open>o\<close>,
  confirm mode HTTP-status with pattern \<open>200\<close>, and the dist inst of a created host.
  Scenario S2 is S1 with a callback that answers 500: the surroundings \<open>S2_env\<close>, in
  which every library call succeeds, compiled patterns are their own text, and this
  instance owns subscription 7.
\<close>

definition S1_subscription :: Subscription where
  "S1_subscription =
     \<lparr>SubscriptionID = 7, OwnerID = ''o'', SubscriptionForm = ''hostcreate'',
      CallbackURL = ''http://x/'', ConfirmMode = ConfirmModeHTTPStatus,
      ConfirmPattern = ''200'', TimeOutSeconds = 0\<rparr>"

definition S1_dist :: DistInst where
  "S1_dist =
     \<lparr>EventInst =
        \<lparr>ID = 0, EventInst.Cursor = ''c1'', EventType = EventTypeInstData,
         ObjType = BKInnerObjIDHost, Action = EventActionCreate,
         ActionTime = \<lparr>sec = 1000, nsec = 0\<rparr>,
         Data = [\<lparr>PreData = VNil, CurData = VMap [(''bk_host_id'', VNumber ''1'')]\<rparr>]\<rparr>,
      DstbID = 1, DistInst.SubscriptionID = 7\<rparr>"

definition S2_env :: "string sender_env" where
  "S2_env =
     \<lparr>IsMatch = (\<lambda>key. key = ''7''),
      FindSubscription = (\<lambda>subid. if subid = 7 then Some S1_subscription else None),
      json_Marshal = (\<lambda>dist. (''{dist}'', None)),
      json_Unmarshal = (\<lambda>text. (S1_dist,
         if text = ''{dist}'' then None else Some (LibraryError ''invalid character''))),
      http_NewRequest = (\<lambda>method url body. (\<lparr>Method = method, URL = url, Body = body\<rparr>, None)),
      DoWithTimeout = (\<lambda>duration req. (\<lparr>StatusCode = 500, ReadAll = (''FAIL'', None)\<rparr>, None)),
      regexp_Compile = (\<lambda>expr. (expr, None)),
      regexp_Match = (\<lambda>pattern b. False),
      EventCacheSubscriberEventQueueKeyPrefix = ''queue:'',
      EventCacheDistCallBackCountPrefix = ''count:'',
      NilStr = ''nil''\<rparr>"

text \<open>A cache with empty lists and no counts yet, and with the dist inst queued for 7.\<close>

definition emptyState :: sender_state where
  "emptyState = \<lparr>lists = (\<lambda>key. []), hashes = (\<lambda>key field. 0), posts = []\<rparr>"

definition queuedState :: sender_state where
  "queuedState = \<lparr>lists = (\<lambda>key. if key = ''queue:7'' then [''{dist}''] else []),
      hashes = (\<lambda>key field. 0), posts = []\<rparr>"


section \<open>A tracker run as input\<close>

text \<open>
  One bucket \<open>o:hostcreate\<close> holding subscription 7, event types that all map to
  \<open>Host\<close>, and a cache in which the persisted cursor of 7 has the value \<open>val\<close>;
  cursors decode to their seconds (\<open>c5\<close> to 5, any other text to 10). The distributer
  starts as \<^verbatim>\<open>NewDistributer\<close> leaves \<^verbatim>\<open>resourceCursors\<close>: empty.
\<close>

definition trackerEnv :: "string \<Rightarrow> cursor_env" where
  "trackerEnv val =
     \<lparr>cache_Get = (\<lambda>key. (if key = ''cursor:o:hostcreate:%!s(int64=7)'' then val else [], None)),
      Decode = (\<lambda>text. (\<lparr>ClusterTime = \<lparr>Sec = (if text = ''c5'' then 5 else 10), Nano = 0\<rparr>,
                           Oid = text\<rparr>, None)),
      ParseCursorTypeFromEventType = (\<lambda>eventType. Host),
      EventCacheSubscriberCursorPrefix = ''cursor:''\<rparr>"

definition trackerStart :: Distributer where
  "trackerStart =
     \<lparr>subscriptions = Map.empty, subscribers = [''o:hostcreate'' \<mapsto> [7]],
      resourceCursors = Map.empty\<rparr>"


text \<open>
  The cursors among which a run keeps an oldest: the one that \<^verbatim>\<open>resourceCursors\<close>
  already holds for the cursor type, if any, and then the persisted ones it reads.
\<close>

definition candidates :: "Cursor option \<Rightarrow> Cursor list \<Rightarrow> Cursor list" where
  "candidates stored cs = (case stored of None \<Rightarrow> [] | Some c \<Rightarrow> [c]) @ cs"


section \<open>Properties of the refresh lock table\<close>

lemma canRefresh_fst: "fst (canRefresh r k) \<longleftrightarrow> r k \<noteq> Some True"
  by (cases "r k") (simp_all add: canRefresh_def)

lemma canRefresh_snd:
  "snd (canRefresh r k) = (if r k = None then r(k \<mapsto> False) else r)"
  by (cases "r k") (simp_all add: canRefresh_def)

lemma lock_step_keeps_marked:
  "r k = Some True \<Longrightarrow> x \<noteq> SetUnRefreshing k \<Longrightarrow> lock_step r x k = Some True"
  by (cases x) (auto simp: canRefresh_snd setRefreshing_def setUnRefreshing_def)

lemma lock_run_keeps_marked:
  "r k = Some True \<Longrightarrow> SetUnRefreshing k \<notin> set ops \<Longrightarrow> lock_run r ops k = Some True"
proof (induction ops arbitrary: r)
  case Nil
  then show ?case by simp
next
  case (Cons x xs)
  from Cons.prems have "lock_step r x k = Some True"
    by (intro lock_step_keeps_marked) auto
  with Cons show ?case by simp
qed

lemma lock_step_keeps_unmarked:
  "r k \<noteq> Some True \<Longrightarrow> x \<noteq> SetRefreshing k \<Longrightarrow> lock_step r x k \<noteq> Some True"
  by (cases x) (auto simp: canRefresh_snd setRefreshing_def setUnRefreshing_def)

lemma lock_run_keeps_unmarked:
  "r k \<noteq> Some True \<Longrightarrow> SetRefreshing k \<notin> set ops \<Longrightarrow> lock_run r ops k \<noteq> Some True"
proof (induction ops arbitrary: r)
  case Nil
  then show ?case by simp
next
  case (Cons x xs)
  from Cons.prems have "lock_step r x k \<noteq> Some True"
    by (intro lock_step_keeps_unmarked) auto
  with Cons show ?case by simp
qed

text \<open>
  Claim C7. \<^verbatim>\<open>canRefresh(k)\<close> returns true iff \<open>k\<close> is not marked in progress; a
  key that is not in the table counts as not in progress and is recorded as false, and
  a key that is in the table leaves it as it was. After \<^verbatim>\<open>setRefreshing(k)\<close>,
  whatever operations follow, as long as none of them is \<^verbatim>\<open>setUnRefreshing(k)\<close>,
  \<^verbatim>\<open>canRefresh(k)\<close> returns false; after \<^verbatim>\<open>setUnRefreshing(k)\<close> it returns
  true again, and keeps doing so until the next \<^verbatim>\<open>setRefreshing(k)\<close>.
\<close>

theorem canRefresh_single_flight:
  "(fst (canRefresh r k) \<longleftrightarrow> r k \<noteq> Some True)
   \<and> snd (canRefresh r k) = (if r k = None then r(k \<mapsto> False) else r)
   \<and> (SetUnRefreshing k \<notin> set ops \<longrightarrow>
        \<not> fst (canRefresh (lock_run (setRefreshing r k) ops) k))
   \<and> (SetRefreshing k \<notin> set ops' \<longrightarrow>
        fst (canRefresh (lock_run (setUnRefreshing (lock_run (setRefreshing r k) ops) k) ops') k))"
proof (intro conjI impI)
  show "fst (canRefresh r k) \<longleftrightarrow> r k \<noteq> Some True"
    by (rule canRefresh_fst)
  show "snd (canRefresh r k) = (if r k = None then r(k \<mapsto> False) else r)"
    by (rule canRefresh_snd)
next
  assume "SetUnRefreshing k \<notin> set ops"
  moreover have "setRefreshing r k k = Some True"
    by (simp add: setRefreshing_def)
  ultimately have "lock_run (setRefreshing r k) ops k = Some True"
    by (intro lock_run_keeps_marked)
  then show "\<not> fst (canRefresh (lock_run (setRefreshing r k) ops) k)"
    by (simp add: canRefresh_fst)
next
  let ?s = "setUnRefreshing (lock_run (setRefreshing r k) ops) k"
  assume "SetRefreshing k \<notin> set ops'"
  moreover have "?s k \<noteq> Some True"
    by (simp add: setUnRefreshing_def)
  ultimately have "lock_run ?s ops' k \<noteq> Some True"
    by (intro lock_run_keeps_unmarked)
  then show "fst (canRefresh (lock_run ?s ops' ) k)"
    by (simp add: canRefresh_fst)
qed

theorem canRefresh_single_flight_witness:
  "fst (canRefresh Map.empty ''biz'')
   \<and> snd (canRefresh Map.empty ''biz'') ''biz'' = Some False
   \<and> \<not> fst (canRefresh (lock_run (setRefreshing Map.empty ''biz'')
            [CanRefresh ''biz'', SetRefreshing ''biz'', SetUnRefreshing ''set'']) ''biz'')
   \<and> fst (canRefresh (lock_run (setUnRefreshing (lock_run (setRefreshing Map.empty ''biz'')
            [CanRefresh ''biz'', SetRefreshing ''biz'', SetUnRefreshing ''set'']) ''biz'')
            [CanRefresh ''biz'', SetRefreshing ''set'']) ''biz'')"
  using canRefresh_single_flight [of Map.empty "''biz''"
      "[CanRefresh ''biz'', SetRefreshing ''biz'', SetUnRefreshing ''set'']"
      "[CanRefresh ''biz'', SetRefreshing ''set'']"]
  by simp


section \<open>Properties of the event handler's start-up\<close>

text \<open>
  Claim C9. \<^verbatim>\<open>EventHandler.Start\<close> returns an error exactly when the redis cache,
  the distributer or the hash ring is nil, and then the pump is not started; when all
  three are set it returns nil and the pump is started.
\<close>

theorem Start_error_iff_dependency_missing:
  "(fst (Start h) \<noteq> None \<longleftrightarrow> cache h = None \<or> distributer h = None \<or> hash h = None)
   \<and> (snd (Start h) \<longleftrightarrow> fst (Start h) = None)
   \<and> (Start h = (None, True) \<longleftrightarrow> cache h \<noteq> None \<and> distributer h \<noteq> None \<and> hash h \<noteq> None)"
  by (simp add: Start_def)


section \<open>Properties of the subscribers index\<close>

lemma bucket_upd: "bucket (m(k \<mapsto> v)) k' = (if k' = k then v else bucket m k')"
  by (simp add: bucket_def)

lemma addSubscriber_bucket:
  "bucket (addSubscriber m ownerid eventType subid) k =
     (if k = subscriberKey ownerid eventType \<and> subid \<notin> set (bucket m k)
      then bucket m k @ [subid] else bucket m k)"
  by (simp add: addSubscriber_def Let_def bucket_upd)

lemma remSubscriber_bucket:
  "bucket (remSubscriber m ownerid eventType subid) k =
     (if k = subscriberKey ownerid eventType
      then filter (\<lambda>id. subid \<noteq> id) (bucket m k) else bucket m k)"
  by (simp add: remSubscriber_def Let_def bucket_upd)

lemma index_step_distinct:
  "distinct (bucket m k) \<Longrightarrow> distinct (bucket (index_step m x) k)"
  by (cases x) (auto simp: addSubscriber_bucket remSubscriber_bucket)

lemma index_run_distinct:
  "distinct (bucket m k) \<Longrightarrow> distinct (bucket (index_run m ops) k)"
  by (induction ops arbitrary: m) (simp_all add: index_step_distinct)

lemma distinct_count_list_one:
  "distinct xs \<Longrightarrow> x \<in> set xs \<Longrightarrow> count_list xs x = 1"
  by (induction xs) auto

lemma addSubscriber_twice:
  "addSubscriber (addSubscriber m ownerid eventType subid) ownerid eventType subid =
   addSubscriber m ownerid eventType subid"
  by (simp add: addSubscriber_def Let_def bucket_upd)

lemma remSubscriber_absent:
  "subid \<notin> set (bucket m (subscriberKey ownerid eventType)) \<Longrightarrow>
   bucket (remSubscriber m ownerid eventType subid) k = bucket m k"
proof -
  assume a: "subid \<notin> set (bucket m (subscriberKey ownerid eventType))"
  then have "filter (\<lambda>id. subid \<noteq> id) (bucket m (subscriberKey ownerid eventType)) =
      bucket m (subscriberKey ownerid eventType)"
    by (intro filter_True) auto
  then show ?thesis
    by (simp add: remSubscriber_bucket)
qed

text \<open>
  Claim C8. Adding a subscription id twice leaves the index in the state one call leaves
  it in; after an add the id is in its bucket exactly once whenever the bucket held no
  duplicate before, and no bucket of an index built from the empty one by adds and
  removes ever holds an id twice; removing an id from a bucket that does not hold it
  leaves every bucket's content as it was.
\<close>

theorem subscriber_index_idempotent:
  "addSubscriber (addSubscriber m ownerid eventType subid) ownerid eventType subid =
     addSubscriber m ownerid eventType subid
   \<and> subid \<in> set (bucket (addSubscriber m ownerid eventType subid) (subscriberKey ownerid eventType))
   \<and> distinct (bucket (index_run Map.empty ops) k)
   \<and> (distinct (bucket m (subscriberKey ownerid eventType)) \<longrightarrow>
        count_list (bucket (addSubscriber m ownerid eventType subid)
          (subscriberKey ownerid eventType)) subid = 1)
   \<and> (subid \<notin> set (bucket m (subscriberKey ownerid eventType)) \<longrightarrow>
        (\<forall>k'. bucket (remSubscriber m ownerid eventType subid) k' = bucket m k'))"
proof (intro conjI impI allI)
  show "addSubscriber (addSubscriber m ownerid eventType subid) ownerid eventType subid =
     addSubscriber m ownerid eventType subid"
    by (rule addSubscriber_twice)
  show "subid \<in> set (bucket (addSubscriber m ownerid eventType subid) (subscriberKey ownerid eventType))"
    by (simp add: addSubscriber_bucket)
  have "distinct (bucket Map.empty k)"
    by (simp add: bucket_def)
  then show "distinct (bucket (index_run Map.empty ops) k)"
    by (rule index_run_distinct)
next
  let ?b = "bucket (addSubscriber m ownerid eventType subid) (subscriberKey ownerid eventType)"
  assume "distinct (bucket m (subscriberKey ownerid eventType))"
  then have "distinct ?b"
    by (simp add: addSubscriber_bucket)
  moreover have "subid \<in> set ?b"
    by (simp add: addSubscriber_bucket)
  ultimately show "count_list ?b subid = 1"
    by (rule distinct_count_list_one)
next
  fix k'
  assume "subid \<notin> set (bucket m (subscriberKey ownerid eventType))"
  then show "bucket (remSubscriber m ownerid eventType subid) k' = bucket m k'"
    by (rule remSubscriber_absent)
qed

theorem subscriber_index_idempotent_witness:
  "addSubscriber (addSubscriber [''o:hostcreate'' \<mapsto> [7]] ''o'' ''hostcreate'' 8) ''o'' ''hostcreate'' 8 =
     addSubscriber [''o:hostcreate'' \<mapsto> [7]] ''o'' ''hostcreate'' 8
   \<and> bucket (addSubscriber [''o:hostcreate'' \<mapsto> [7]] ''o'' ''hostcreate'' 8) ''o:hostcreate'' = [7, 8]
   \<and> count_list (bucket (addSubscriber [''o:hostcreate'' \<mapsto> [7]] ''o'' ''hostcreate'' 8)
        (subscriberKey ''o'' ''hostcreate'')) 8 = 1
   \<and> bucket (remSubscriber [''o:hostcreate'' \<mapsto> [7]] ''o'' ''hostcreate'' 8) ''o:hostcreate'' = [7]"
  using subscriber_index_idempotent [of "[''o:hostcreate'' \<mapsto> [7]]" "''o''" "''hostcreate''" 8 "[]" "''o:hostcreate''"]
  by (simp add: subscriberKey_def bucket_def addSubscriber_def)

section \<open>Properties of the watch response\<close>

text \<open>
  Claim C3. With no events and no start cursor the response has \<open>Watched = False\<close> and
  one event, carrying \<^verbatim>\<open>NoEventCursor\<close> and the resource; with no events and a
  start cursor it has \<open>Watched = False\<close> and one event echoing the start cursor; when
  the first event's cursor is \<^verbatim>\<open>NoEventCursor\<close> the response is the one for no
  events; otherwise it has \<open>Watched = True\<close> and the events as they came.
\<close>

theorem generateResp_rules:
  "(events = [] \<and> startCursor = [] \<longrightarrow>
      generateResp NoEventCursor startCursor rsc events =
        Returned \<lparr>Watched = False,
          Events = [Some \<lparr>Cursor = NoEventCursor, Resource = rsc,
                           EventType = OtherEventType [], Detail = VNil\<rparr>]\<rparr>)
   \<and> (events = [] \<and> startCursor \<noteq> [] \<longrightarrow>
      generateResp NoEventCursor startCursor rsc events =
        Returned \<lparr>Watched = False,
          Events = [Some \<lparr>Cursor = startCursor, Resource = rsc,
                           EventType = OtherEventType [], Detail = VNil\<rparr>]\<rparr>)
   \<and> (events = Some first # rest \<and> Cursor first = NoEventCursor \<longrightarrow>
      generateResp NoEventCursor startCursor rsc events =
        generateResp NoEventCursor startCursor rsc [])
   \<and> (events = Some first # rest \<and> Cursor first \<noteq> NoEventCursor \<longrightarrow>
      generateResp NoEventCursor startCursor rsc events =
        Returned \<lparr>Watched = True, Events = events\<rparr>)"
  by (simp add: generateResp_def cursorOnly_def)

theorem generateResp_rules_witness:
  "generateResp ''none'' [] Host [] =
      Returned \<lparr>Watched = False,
        Events = [Some \<lparr>Cursor = ''none'', Resource = Host, EventType = OtherEventType [], Detail = VNil\<rparr>]\<rparr>
   \<and> generateResp ''none'' ''c1'' Host [] =
      Returned \<lparr>Watched = False,
        Events = [Some \<lparr>Cursor = ''c1'', Resource = Host, EventType = OtherEventType [], Detail = VNil\<rparr>]\<rparr>
   \<and> generateResp ''none'' ''c1'' Host
        [Some \<lparr>Cursor = ''none'', Resource = Host, EventType = Create, Detail = VNil\<rparr>] =
      generateResp ''none'' ''c1'' Host []
   \<and> generateResp ''none'' ''c1'' Host
        [Some \<lparr>Cursor = ''c2'', Resource = Host, EventType = Create, Detail = VNil\<rparr>, None] =
      Returned \<lparr>Watched = True,
        Events = [Some \<lparr>Cursor = ''c2'', Resource = Host, EventType = Create, Detail = VNil\<rparr>, None]\<rparr>"
  using generateResp_rules [where events = "[]" and startCursor = "[]" and NoEventCursor = "''none''" and rsc = Host]
    generateResp_rules [where events = "[]" and startCursor = "''c1''" and NoEventCursor = "''none''" and rsc = Host]
    generateResp_rules [where events = "[Some \<lparr>Cursor = ''none'', Resource = Host, EventType = Create, Detail = VNil\<rparr>]"
       and first = "\<lparr>Cursor = ''none'', Resource = Host, EventType = Create, Detail = VNil\<rparr>"
       and rest = "[]" and NoEventCursor = "''none''" and startCursor = "''c1''" and rsc = Host]
    generateResp_rules [where events = "[Some \<lparr>Cursor = ''c2'', Resource = Host, EventType = Create, Detail = VNil\<rparr>, None]"
       and first = "\<lparr>Cursor = ''c2'', Resource = Host, EventType = Create, Detail = VNil\<rparr>"
       and rest = "[None]" and NoEventCursor = "''none''" and startCursor = "''c1''" and rsc = Host]
  by simp

text \<open>A nil pointer at the head of the slice makes the read of its cursor panic.\<close>

lemma generateResp_nil_first:
  "generateResp NoEventCursor startCursor rsc (None # rest) = Panicked NilDereference"
  by (simp add: generateResp_def)

section \<open>Properties of getDistInst\<close>

lemma getDistInst_object:
  assumes "EventInst.EventType event = EventTypeInstData" and "ObjType event = BKInnerObjIDObject"
    and "Data event = d0 # rest"
    and "p = (if Action event = EventActionDelete then PreData d0 else CurData d0)"
  shows "getDistInst event =
     (case p of
        VMap m \<Rightarrow>
          (case map_index m BKObjIDField of
             VNil \<Rightarrow> Returned ([\<lparr>EventInst = event, DstbID = 0, DistInst.SubscriptionID = 0\<rparr>], None)
           | VString s \<Rightarrow>
               Returned ([\<lparr>EventInst = event\<lparr>ObjType := s\<rparr>, DstbID = 0,
                           DistInst.SubscriptionID = 0\<rparr>], None)
           | _ \<Rightarrow> Panicked InterfaceConversion)
      | _ \<Rightarrow> Returned ([], Some (CantParseDistInst (PreData d0) (CurData d0))))"
  using assms by (simp add: getDistInst_def Let_def split: go_value.splits)

text \<open>
  Claim C10. For an event with \<open>EventType = EventTypeInstData\<close> and
  \<open>ObjType = BKInnerObjIDObject\<close>: with no data the function returns no dist inst and
  no error; when the payload that decides (\<open>PreData\<close> of the first item for a delete,
  \<open>CurData\<close> of the first item otherwise) is not a JSON object it returns an error;
  whenever it returns without error on an event that has data, it returns exactly one
  dist inst, however many items follow the first; and it does return one, with the
  event's own object type when the object has no \<^verbatim>\<open>bk_obj_id\<close>, and with
  the \<^verbatim>\<open>bk_obj_id\<close> when that is a string.
\<close>

theorem getDistInst_object_event:
  assumes "EventInst.EventType event = EventTypeInstData" and "ObjType event = BKInnerObjIDObject"
  shows "(Data event = [] \<longrightarrow> getDistInst event = Returned ([], None))
   \<and> (Data event = d0 # rest
        \<and> (\<forall>m. (if Action event = EventActionDelete then PreData d0 else CurData d0) \<noteq> VMap m) \<longrightarrow>
        getDistInst event = Returned ([], Some (CantParseDistInst (PreData d0) (CurData d0))))
   \<and> (Data event = d0 # rest \<and> getDistInst event = Returned (dists, None) \<longrightarrow> length dists = 1)
   \<and> (Data event = d0 # rest
        \<and> (if Action event = EventActionDelete then PreData d0 else CurData d0) = VMap m
        \<and> map_index m BKObjIDField = VNil \<longrightarrow>
        getDistInst event =
          Returned ([\<lparr>EventInst = event, DstbID = 0, DistInst.SubscriptionID = 0\<rparr>], None))
   \<and> (Data event = d0 # rest
        \<and> (if Action event = EventActionDelete then PreData d0 else CurData d0) = VMap m
        \<and> map_index m BKObjIDField = VString s \<longrightarrow>
        getDistInst event =
          Returned ([\<lparr>EventInst = event\<lparr>ObjType := s\<rparr>, DstbID = 0, DistInst.SubscriptionID = 0\<rparr>], None))"
proof -
  define p where "p = (if Action event = EventActionDelete then PreData d0 else CurData d0)"
  note unfold = getDistInst_object [OF assms _ p_def]
  have c1: "Data event = [] \<Longrightarrow> getDistInst event = Returned ([], None)"
    using assms by (simp add: getDistInst_def)
  have c2: "getDistInst event = Returned ([], Some (CantParseDistInst (PreData d0) (CurData d0)))"
    if "Data event = d0 # rest" and "\<forall>m. p \<noteq> VMap m"
    using that by (cases p) (simp_all add: unfold)
  have c3: "length dists = 1"
    if "Data event = d0 # rest" and "getDistInst event = Returned (dists, None)"
    using that by (auto simp: unfold split: go_value.splits)
  have c4: "getDistInst event =
      Returned ([\<lparr>EventInst = event, DstbID = 0, DistInst.SubscriptionID = 0\<rparr>], None)"
    if "Data event = d0 # rest" and "p = VMap m" and "map_index m BKObjIDField = VNil"
    using that by (simp add: unfold)
  have c5: "getDistInst event =
      Returned ([\<lparr>EventInst = event\<lparr>ObjType := s\<rparr>, DstbID = 0, DistInst.SubscriptionID = 0\<rparr>], None)"
    if "Data event = d0 # rest" and "p = VMap m" and "map_index m BKObjIDField = VString s"
    using that by (simp add: unfold)
  from c1 c2 c3 c4 c5 show ?thesis
    unfolding p_def by blast
qed

theorem getDistInst_object_event_witness:
  "getDistInst \<lparr>ID = 1, EventInst.Cursor = ''c'', EventType = EventTypeInstData,
       ObjType = BKInnerObjIDObject, Action = EventActionDelete,
       ActionTime = \<lparr>sec = 0, nsec = 0\<rparr>, Data = []\<rparr> = Returned ([], None)
   \<and> getDistInst \<lparr>ID = 1, EventInst.Cursor = ''c'', EventType = EventTypeInstData,
       ObjType = BKInnerObjIDObject, Action = EventActionDelete,
       ActionTime = \<lparr>sec = 0, nsec = 0\<rparr>,
       Data = [\<lparr>PreData = VNil, CurData = VMap []\<rparr>]\<rparr> =
     Returned ([], Some (CantParseDistInst VNil (VMap [])))
   \<and> getDistInst \<lparr>ID = 1, EventInst.Cursor = ''c'', EventType = EventTypeInstData,
       ObjType = BKInnerObjIDObject, Action = EventActionCreate,
       ActionTime = \<lparr>sec = 0, nsec = 0\<rparr>,
       Data = [\<lparr>PreData = VNil, CurData = VMap [(BKObjIDField, VString ''switch'')]\<rparr>,
               \<lparr>PreData = VNil, CurData = VMap [(BKObjIDField, VString ''router'')]\<rparr>]\<rparr> =
     Returned ([\<lparr>EventInst = \<lparr>ID = 1, EventInst.Cursor = ''c'', EventType = EventTypeInstData,
       ObjType = ''switch'', Action = EventActionCreate,
       ActionTime = \<lparr>sec = 0, nsec = 0\<rparr>,
       Data = [\<lparr>PreData = VNil, CurData = VMap [(BKObjIDField, VString ''switch'')]\<rparr>,
               \<lparr>PreData = VNil, CurData = VMap [(BKObjIDField, VString ''router'')]\<rparr>]\<rparr>,
       DstbID = 0, DistInst.SubscriptionID = 0\<rparr>], None)
   \<and> getDistInst \<lparr>ID = 1, EventInst.Cursor = ''c'', EventType = EventTypeInstData,
       ObjType = BKInnerObjIDObject, Action = EventActionDelete,
       ActionTime = \<lparr>sec = 0, nsec = 0\<rparr>,
       Data = [\<lparr>PreData = VMap [(''bk_inst_id'', VNumber ''3'')], CurData = VNil\<rparr>]\<rparr> =
     Returned ([\<lparr>EventInst = \<lparr>ID = 1, EventInst.Cursor = ''c'', EventType = EventTypeInstData,
       ObjType = BKInnerObjIDObject, Action = EventActionDelete,
       ActionTime = \<lparr>sec = 0, nsec = 0\<rparr>,
       Data = [\<lparr>PreData = VMap [(''bk_inst_id'', VNumber ''3'')], CurData = VNil\<rparr>]\<rparr>,
       DstbID = 0, DistInst.SubscriptionID = 0\<rparr>], None)"
  using getDistInst_object_event [where event = "\<lparr>ID = 1, EventInst.Cursor = ''c'', EventType = EventTypeInstData,
       ObjType = BKInnerObjIDObject, Action = EventActionDelete,
       ActionTime = \<lparr>sec = 0, nsec = 0\<rparr>,
       Data = [\<lparr>PreData = VMap [(''bk_inst_id'', VNumber ''3'')], CurData = VNil\<rparr>]\<rparr>"
       and ?d0.0 = "\<lparr>PreData = VMap [(''bk_inst_id'', VNumber ''3'')], CurData = VNil\<rparr>"
       and rest = "[]" and m = "[(''bk_inst_id'', VNumber ''3'')]"]
   getDistInst_object_event [where event = "\<lparr>ID = 1, EventInst.Cursor = ''c'', EventType = EventTypeInstData,
       ObjType = BKInnerObjIDObject, Action = EventActionDelete,
       ActionTime = \<lparr>sec = 0, nsec = 0\<rparr>, Data = []\<rparr>"]
   getDistInst_object_event [where event = "\<lparr>ID = 1, EventInst.Cursor = ''c'', EventType = EventTypeInstData,
       ObjType = BKInnerObjIDObject, Action = EventActionDelete,
       ActionTime = \<lparr>sec = 0, nsec = 0\<rparr>,
       Data = [\<lparr>PreData = VNil, CurData = VMap []\<rparr>]\<rparr>" and ?d0.0 = "\<lparr>PreData = VNil, CurData = VMap []\<rparr>" and rest = "[]"]
   getDistInst_object_event [where event = "\<lparr>ID = 1, EventInst.Cursor = ''c'', EventType = EventTypeInstData,
       ObjType = BKInnerObjIDObject, Action = EventActionCreate,
       ActionTime = \<lparr>sec = 0, nsec = 0\<rparr>,
       Data = [\<lparr>PreData = VNil, CurData = VMap [(BKObjIDField, VString ''switch'')]\<rparr>,
               \<lparr>PreData = VNil, CurData = VMap [(BKObjIDField, VString ''router'')]\<rparr>]\<rparr>"
       and ?d0.0 = "\<lparr>PreData = VNil, CurData = VMap [(BKObjIDField, VString ''switch'')]\<rparr>"
       and rest = "[\<lparr>PreData = VNil, CurData = VMap [(BKObjIDField, VString ''router'')]\<rparr>]"
       and m = "[(BKObjIDField, VString ''switch'')]" and s = "''switch''"]
  by (simp add: map_index_def EventActionCreate_def EventActionDelete_def BKObjIDField_def)

text \<open>
  The remaining case does not return: a \<^verbatim>\<open>bk_obj_id\<close> that is neither nil nor a
  string makes the one-valued type assertion panic. Every other event gives one dist
  inst.
\<close>

lemma getDistInst_bk_obj_id_not_string:
  assumes "EventInst.EventType event = EventTypeInstData" and "ObjType event = BKInnerObjIDObject"
    and "Data event = d0 # rest"
    and "(if Action event = EventActionDelete then PreData d0 else CurData d0) = VMap m"
    and "map_index m BKObjIDField \<noteq> VNil" and "\<forall>s. map_index m BKObjIDField \<noteq> VString s"
  shows "getDistInst event = Panicked InterfaceConversion"
  using assms(5,6) getDistInst_object [OF assms(1-3) refl]
  by (cases "map_index m BKObjIDField") (simp_all add: assms(4))

lemma getDistInst_other_event:
  "\<not> (EventInst.EventType event = EventTypeInstData \<and> ObjType event = BKInnerObjIDObject) \<Longrightarrow>
   getDistInst event = Returned ([\<lparr>EventInst = event, DstbID = 0, DistInst.SubscriptionID = 0\<rparr>], None)"
  by (auto simp: getDistInst_def)

section \<open>Properties of the external ingestion\<close>

text \<open>
  The \<^verbatim>\<open>eventInst\<close> that an iteration builds follows the table of resources and
  the mapping of actions; an unknown resource or event type builds none, and the
  iteration pushes nothing.
\<close>

lemma switchEventType_Some:
  "switchEventType e t = Some inst \<longleftrightarrow>
     (\<exists>act. (t, act) \<in> {(Create, EventActionCreate), (Update, EventActionUpdate),
                        (Delete, EventActionDelete)}
        \<and> inst = e\<lparr>Action := act\<rparr>)"
  by (cases t) (auto simp: switchEventType_def)

lemma buildEventInst_table:
  "buildEventInst now event = Some inst \<longleftrightarrow>
     (\<exists>et ot act.
        (Resource event, et, ot) \<in>
          {(Host, EventTypeInstData, BKInnerObjIDHost),
           (ModuleHostRelation, EventTypeRelation, EventObjTypeModuleTransfer),
           (Biz, EventTypeInstData, BKInnerObjIDApp),
           (Set, EventTypeInstData, BKInnerObjIDSet),
           (Module, EventTypeInstData, BKInnerObjIDModule),
           (ObjectBase, EventTypeInstData, BKInnerObjIDObject)}
        \<and> (EventType event, act) \<in>
          {(Create, EventActionCreate), (Update, EventActionUpdate), (Delete, EventActionDelete)}
        \<and> inst = \<lparr>ID = 0, EventInst.Cursor = Cursor event, EventType = et, ObjType = ot,
                    Action = act, ActionTime = now,
                    Data = [\<lparr>PreData = VNil, CurData = Detail event\<rparr>]\<rparr>)"
  by (cases "Resource event") (auto simp: buildEventInst_def Let_def switchEventType_Some)

lemma Handle_skips:
  "buildEventInst (Now env i) event = None \<Longrightarrow>
   Handle env i (Some event # events) q = Handle env (Suc i) events q"
  by simp

lemma Handle_pushes_details_only:
  "\<exists>ds. snd (Handle env i events q) = map JSON_WatchEventDetail ds @ q"
proof (induction env i events q rule: Handle.induct)
  case (1 env i q)
  show ?case by (rule exI [of _ "[]"]) simp
next
  case (2 env i events q)
  show ?case by (rule exI [of _ "[]"]) simp
next
  case (3 env i event events q)
  show ?case
  proof (cases "buildEventInst (Now env i) event")
    case None
    with 3 show ?thesis by simp
  next
    case (Some eventInst)
    show ?thesis
    proof (cases "marshal_fails env event \<or> lpush_fails env i")
      case True
      with 3 Some show ?thesis by auto
    next
      case False
      with 3(4) [OF Some _ refl] Some obtain ds where
        "snd (Handle env (Suc i) events (JSON_WatchEventDetail event # q)) =
           map JSON_WatchEventDetail ds @ JSON_WatchEventDetail event # q"
        by auto
      with False Some show ?thesis
        by (intro exI [of _ "ds @ [event]"]) simp
    qed
  qed
qed

lemma Handle_never_pushes_EventInst:
  "JSON_EventInst inst \<notin> set q \<Longrightarrow> JSON_EventInst inst \<notin> set (snd (Handle env i events q))"
  using Handle_pushes_details_only [of env i events q] by auto

lemma buildEventInst_unknown:
  "Resource event = OtherCursorType r \<or> EventType event = OtherEventType t \<Longrightarrow>
   buildEventInst now event = None"
  by (cases "Resource event") (auto simp: buildEventInst_def Let_def switchEventType_def)

text \<open>
  Claim C2. The claim has the \<^verbatim>\<open>EventInst\<close> marshaled and pushed to the main
  queue. The source builds it and then marshals \<^verbatim>\<open>event\<close>, the
  \<^verbatim>\<open>WatchEventDetail\<close>: for a created host, the queue receives the text of the
  detail, and not the text of the \<^verbatim>\<open>EventInst\<close> built for it
  (\<open>Handle_never_pushes_EventInst\<close> has it for every input).
\<close>

theorem Handle_pushes_the_detail:
  "buildEventInst \<lparr>sec = 100, nsec = 0\<rparr>
      \<lparr>Cursor = ''c1'', Resource = Host, EventType = Create, Detail = VMap [(''bk_host_id'', VNumber ''1'')]\<rparr> =
    Some \<lparr>ID = 0, EventInst.Cursor = ''c1'', EventType = EventTypeInstData, ObjType = BKInnerObjIDHost,
           Action = EventActionCreate, ActionTime = \<lparr>sec = 100, nsec = 0\<rparr>,
           Data = [\<lparr>PreData = VNil, CurData = VMap [(''bk_host_id'', VNumber ''1'')]\<rparr>]\<rparr>
   \<and> Handle \<lparr>Now = \<lambda>i. \<lparr>sec = 100, nsec = 0\<rparr>, marshal_fails = \<lambda>e. False, lpush_fails = \<lambda>i. False\<rparr> 0
      [Some \<lparr>Cursor = ''c1'', Resource = Host, EventType = Create, Detail = VMap [(''bk_host_id'', VNumber ''1'')]\<rparr>] [] =
    (Returned None,
     [JSON_WatchEventDetail
        \<lparr>Cursor = ''c1'', Resource = Host, EventType = Create, Detail = VMap [(''bk_host_id'', VNumber ''1'')]\<rparr>])
   \<and> snd (Handle \<lparr>Now = \<lambda>i. \<lparr>sec = 100, nsec = 0\<rparr>, marshal_fails = \<lambda>e. False, lpush_fails = \<lambda>i. False\<rparr> 0
      [Some \<lparr>Cursor = ''c1'', Resource = Host, EventType = Create, Detail = VMap [(''bk_host_id'', VNumber ''1'')]\<rparr>] []) \<noteq>
     [JSON_EventInst \<lparr>ID = 0, EventInst.Cursor = ''c1'', EventType = EventTypeInstData, ObjType = BKInnerObjIDHost,
           Action = EventActionCreate, ActionTime = \<lparr>sec = 100, nsec = 0\<rparr>,
           Data = [\<lparr>PreData = VNil, CurData = VMap [(''bk_host_id'', VNumber ''1'')]\<rparr>]\<rparr>]"
  by (simp add: buildEventInst_def switchEventType_def)

section \<open>Properties of the registry's upsert handler\<close>

lemma Split_no_sep: "sep \<notin> set a \<Longrightarrow> Split a sep = [a]"
  by (induction a) auto

lemma Split_append_sep: "sep \<notin> set a \<Longrightarrow> Split (a @ sep # b) sep = a # Split b sep"
  by (induction a) auto

lemma Split_two:
  "sep \<notin> set a \<Longrightarrow> sep \<notin> set b \<Longrightarrow> Split (a @ [sep] @ b) sep = [a, b]"
  by (simp add: Split_append_sep Split_no_sep)

lemma CalSliceDiff_AB_BC:
  "A \<noteq> B \<Longrightarrow> B \<noteq> C \<Longrightarrow> A \<noteq> C \<Longrightarrow> CalSliceDiff [A, B] [B, C] = ([A], [C])"
  by (auto simp: CalSliceDiff_def)

text \<open>
  Claim C5. For a subscription id that the registry holds, an update that changes the
  form from \<open>A,B\<close> to \<open>B,C\<close> (three different event types) makes exactly two
  calls on the index, \<^verbatim>\<open>remSubscriber\<close> for \<open>A\<close> and then
  \<^verbatim>\<open>addSubscriber\<close> for \<open>C\<close>, and it replaces the stored document only when
  the cache key of the new document differs from the stored one's.
\<close>

theorem onUpsertSubscriptions_registry_diff:
  assumes "subscriptions d (Subscription.SubscriptionID new) = Some old"
    and "SubscriptionForm old = A @ '','' @ B" and "SubscriptionForm new = B @ '','' @ C"
    and "CHR '','' \<notin> set A" and "CHR '','' \<notin> set B" and "CHR '','' \<notin> set C"
    and "A \<noteq> B" and "B \<noteq> C" and "A \<noteq> C"
  shows "upsertCalls (Some old) new =
      [RemSub (OwnerID new) A (Subscription.SubscriptionID new),
       AddSub (OwnerID new) C (Subscription.SubscriptionID new)]
    \<and> subscribers (onUpsertSubscriptions GetCacheKey d new) =
        addSubscriber (remSubscriber (subscribers d) (OwnerID new) A (Subscription.SubscriptionID new))
          (OwnerID new) C (Subscription.SubscriptionID new)
    \<and> subscriptions (onUpsertSubscriptions GetCacheKey d new) =
        (if GetCacheKey new \<noteq> GetCacheKey old
         then (subscriptions d)(Subscription.SubscriptionID new \<mapsto> new)
         else subscriptions d)"
proof -
  have old: "Split (SubscriptionForm old) CHR '','' = [A, B]"
    using assms(2,4,5) Split_two [of "CHR '',''" A B] by simp
  have new: "Split (SubscriptionForm new) CHR '','' = [B, C]"
    using assms(3,5,6) Split_two [of "CHR '',''" B C] by simp
  have calls: "upsertCalls (Some old) new =
      [RemSub (OwnerID new) A (Subscription.SubscriptionID new),
       AddSub (OwnerID new) C (Subscription.SubscriptionID new)]"
    using assms(7-9) by (simp add: upsertCalls_def old new CalSliceDiff_AB_BC)
  from assms(1) calls show ?thesis
    by (simp add: onUpsertSubscriptions_def)
qed

theorem onUpsertSubscriptions_registry_diff_witness:
  "upsertCalls
     (Some \<lparr>SubscriptionID = 7, OwnerID = ''o'', SubscriptionForm = ''hostcreate,hostupdate'',
        CallbackURL = ''http://x/'', ConfirmMode = ConfirmModeHTTPStatus, ConfirmPattern = ''200'',
        TimeOutSeconds = 0\<rparr>)
     \<lparr>SubscriptionID = 7, OwnerID = ''o'', SubscriptionForm = ''hostupdate,hostdelete'',
        CallbackURL = ''http://x/'', ConfirmMode = ConfirmModeHTTPStatus, ConfirmPattern = ''200'',
        TimeOutSeconds = 0\<rparr> =
     [RemSub ''o'' ''hostcreate'' 7, AddSub ''o'' ''hostdelete'' 7]
   \<and> bucket (subscribers (onUpsertSubscriptions SubscriptionForm
        \<lparr>subscriptions = [7 \<mapsto> \<lparr>SubscriptionID = 7, OwnerID = ''o'',
             SubscriptionForm = ''hostcreate,hostupdate'',
             CallbackURL = ''http://x/'', ConfirmMode = ConfirmModeHTTPStatus, ConfirmPattern = ''200'',
             TimeOutSeconds = 0\<rparr>],
          subscribers = [''o:hostcreate'' \<mapsto> [7], ''o:hostupdate'' \<mapsto> [7]],
          resourceCursors = Map.empty\<rparr>
        \<lparr>SubscriptionID = 7, OwnerID = ''o'', SubscriptionForm = ''hostupdate,hostdelete'',
          CallbackURL = ''http://x/'', ConfirmMode = ConfirmModeHTTPStatus, ConfirmPattern = ''200'',
          TimeOutSeconds = 0\<rparr>)) ''o:hostdelete'' = [7]"
  using onUpsertSubscriptions_registry_diff [where
      d = "\<lparr>subscriptions = [7 \<mapsto> \<lparr>SubscriptionID = 7, OwnerID = ''o'',
             SubscriptionForm = ''hostcreate,hostupdate'',
             CallbackURL = ''http://x/'', ConfirmMode = ConfirmModeHTTPStatus, ConfirmPattern = ''200'',
             TimeOutSeconds = 0\<rparr>],
          subscribers = [''o:hostcreate'' \<mapsto> [7], ''o:hostupdate'' \<mapsto> [7]],
          resourceCursors = Map.empty\<rparr>"
      and new = "\<lparr>SubscriptionID = 7, OwnerID = ''o'', SubscriptionForm = ''hostupdate,hostdelete'',
          CallbackURL = ''http://x/'', ConfirmMode = ConfirmModeHTTPStatus, ConfirmPattern = ''200'',
          TimeOutSeconds = 0\<rparr>"
      and old = "\<lparr>SubscriptionID = 7, OwnerID = ''o'', SubscriptionForm = ''hostcreate,hostupdate'',
        CallbackURL = ''http://x/'', ConfirmMode = ConfirmModeHTTPStatus, ConfirmPattern = ''200'',
        TimeOutSeconds = 0\<rparr>"
      and A = "''hostcreate''" and B = "''hostupdate''" and C = "''hostdelete''"
      and GetCacheKey = SubscriptionForm]
  by (simp add: addSubscriber_def remSubscriber_def bucket_def subscriberKey_def)

lemma onUpsertSubscriptions_insert:
  "subscriptions d (Subscription.SubscriptionID new) = None \<Longrightarrow>
   subscriptions (onUpsertSubscriptions GetCacheKey d new) =
     (subscriptions d)(Subscription.SubscriptionID new \<mapsto> new)"
  by (simp add: onUpsertSubscriptions_def)

section \<open>Properties of the event sender\<close>

lemma hashes_HIncrBy:
  "hashes (HIncrBy st key field incr) k f =
     (if k = key \<and> f = field then hashes st k f + incr else hashes st k f)"
  by (simp add: HIncrBy_def)

lemma posts_HIncrBy: "posts (HIncrBy st key field incr) = posts st"
  by (simp add: HIncrBy_def)

lemma lists_HIncrBy: "lists (HIncrBy st key field incr) = lists st"
  by (simp add: HIncrBy_def)

text \<open>
  The body of send with the answers of the surroundings named: the value of errFinal,
  the returned error and the state, branch by branch.
\<close>

lemma sendBody_unfold:
  assumes "json_Marshal env dist = (distData, e1)"
    and "http_NewRequest env ''POST'' (CallbackURL subscription) distData = (req, e2)"
    and "DoWithTimeout env
           (if TimeOutSeconds subscription = 0 then defaultSendTimeout else GetTimeout subscription)
           req = (resp, e3)"
    and "ReadAll resp = (respData, e4)"
    and "regexp_Compile env (ConfirmPattern subscription) = (pattern, e5)"
  shows "sendBody env subscription st dist =
     (if e1 \<noteq> None then (e1, e1, st)
      else if e2 \<noteq> None then (e2, e2, st)
      else if e3 \<noteq> None then (e3, e3, st\<lparr>posts := posts st @ [req]\<rparr>)
      else if e4 \<noteq> None then (e4, e4, st\<lparr>posts := posts st @ [req]\<rparr>)
      else if ConfirmMode subscription = ConfirmModeHTTPStatus then
        (if Itoa (StatusCode resp) \<noteq> ConfirmPattern subscription
         then (None, Some (NotConfirmHTTP respData), st\<lparr>posts := posts st @ [req]\<rparr>)
         else (None, None, st\<lparr>posts := posts st @ [req]\<rparr>))
      else if ConfirmMode subscription = ConfirmModeRegular then
        (if e5 \<noteq> None then (e5, Some (BuildRegexp (the e5)), st\<lparr>posts := posts st @ [req]\<rparr>)
         else if \<not> regexp_Match env pattern respData
         then (None, Some (NotConfirmRegular respData), st\<lparr>posts := posts st @ [req]\<rparr>)
         else (None, None, st\<lparr>posts := posts st @ [req]\<rparr>))
      else (None, None, st\<lparr>posts := posts st @ [req]\<rparr>))"
  unfolding sendBody_def Let_def assms prod.case
  by simp


lemma sendBody_hashes: "hashes (snd (snd (sendBody env subscription st dist))) = hashes st"
proof -
  obtain distData e1 where a1: "json_Marshal env dist = (distData, e1)"
    by (cases "json_Marshal env dist")
  obtain req e2 where a2: "http_NewRequest env ''POST'' (CallbackURL subscription) distData = (req, e2)"
    by (cases "http_NewRequest env ''POST'' (CallbackURL subscription) distData")
  obtain resp e3 where a3: "DoWithTimeout env
      (if TimeOutSeconds subscription = 0 then defaultSendTimeout else GetTimeout subscription)
      req = (resp, e3)"
    by (cases "DoWithTimeout env
      (if TimeOutSeconds subscription = 0 then defaultSendTimeout else GetTimeout subscription) req")
  obtain respData e4 where a4: "ReadAll resp = (respData, e4)"
    by (cases "ReadAll resp")
  obtain pattern e5 where a5: "regexp_Compile env (ConfirmPattern subscription) = (pattern, e5)"
    by (cases "regexp_Compile env (ConfirmPattern subscription)")
  show ?thesis
    by (simp add: sendBody_unfold [OF a1 a2 a3 a4 a5])
qed

lemma sendBody_lists: "lists (snd (snd (sendBody env subscription st dist))) = lists st"
proof -
  obtain distData e1 where a1: "json_Marshal env dist = (distData, e1)"
    by (cases "json_Marshal env dist")
  obtain req e2 where a2: "http_NewRequest env ''POST'' (CallbackURL subscription) distData = (req, e2)"
    by (cases "http_NewRequest env ''POST'' (CallbackURL subscription) distData")
  obtain resp e3 where a3: "DoWithTimeout env
      (if TimeOutSeconds subscription = 0 then defaultSendTimeout else GetTimeout subscription)
      req = (resp, e3)"
    by (cases "DoWithTimeout env
      (if TimeOutSeconds subscription = 0 then defaultSendTimeout else GetTimeout subscription) req")
  obtain respData e4 where a4: "ReadAll resp = (respData, e4)"
    by (cases "ReadAll resp")
  obtain pattern e5 where a5: "regexp_Compile env (ConfirmPattern subscription) = (pattern, e5)"
    by (cases "regexp_Compile env (ConfirmPattern subscription)")
  show ?thesis
    by (simp add: sendBody_unfold [OF a1 a2 a3 a4 a5])
qed

text \<open>
  When errFinal is not nil at the return: exactly when a library call failed (marshal,
  request, transport, body, or the compilation of the pattern), never on a refused
  confirmation alone.
\<close>

lemma sendBody_errFinal:
  "fst (sendBody env subscription st dist) \<noteq> None \<longleftrightarrow>
     snd (json_Marshal env dist) \<noteq> None
     \<or> snd (http_NewRequest env ''POST'' (CallbackURL subscription) (fst (json_Marshal env dist))) \<noteq> None
     \<or> snd (DoWithTimeout env
              (if TimeOutSeconds subscription = 0 then defaultSendTimeout else GetTimeout subscription)
              (fst (http_NewRequest env ''POST'' (CallbackURL subscription) (fst (json_Marshal env dist))))) \<noteq> None
     \<or> snd (ReadAll (fst (DoWithTimeout env
              (if TimeOutSeconds subscription = 0 then defaultSendTimeout else GetTimeout subscription)
              (fst (http_NewRequest env ''POST'' (CallbackURL subscription) (fst (json_Marshal env dist))))))) \<noteq> None
     \<or> (ConfirmMode subscription \<noteq> ConfirmModeHTTPStatus \<and> ConfirmMode subscription = ConfirmModeRegular
         \<and> snd (regexp_Compile env (ConfirmPattern subscription)) \<noteq> None)"
proof -
  obtain distData e1 where a1: "json_Marshal env dist = (distData, e1)"
    by (cases "json_Marshal env dist")
  obtain req e2 where a2: "http_NewRequest env ''POST'' (CallbackURL subscription) distData = (req, e2)"
    by (cases "http_NewRequest env ''POST'' (CallbackURL subscription) distData")
  obtain resp e3 where a3: "DoWithTimeout env
      (if TimeOutSeconds subscription = 0 then defaultSendTimeout else GetTimeout subscription)
      req = (resp, e3)"
    by (cases "DoWithTimeout env
      (if TimeOutSeconds subscription = 0 then defaultSendTimeout else GetTimeout subscription) req")
  obtain respData e4 where a4: "ReadAll resp = (respData, e4)"
    by (cases "ReadAll resp")
  obtain pattern e5 where a5: "regexp_Compile env (ConfirmPattern subscription) = (pattern, e5)"
    by (cases "regexp_Compile env (ConfirmPattern subscription)")
  show ?thesis
    unfolding sendBody_unfold [OF a1 a2 a3 a4 a5] a1 a2 a3 a4 a5 fst_conv snd_conv
    by auto
qed

lemma send_found:
  "FindSubscription env subid = Some subscription \<Longrightarrow>
   send env subid st dist =
     (fst (snd (sendBody env subscription
        (increaseTotal env st (Subscription.SubscriptionID subscription)) dist)),
      if fst (sendBody env subscription
            (increaseTotal env st (Subscription.SubscriptionID subscription)) dist) \<noteq> None
      then increaseFailure env
             (snd (snd (sendBody env subscription
                (increaseTotal env st (Subscription.SubscriptionID subscription)) dist)))
             (Subscription.SubscriptionID subscription)
      else snd (snd (sendBody env subscription
             (increaseTotal env st (Subscription.SubscriptionID subscription)) dist)))"
  unfolding send_def Let_def
  by (cases "sendBody env subscription
        (increaseTotal env st (Subscription.SubscriptionID subscription)) dist") simp

lemma send_not_found:
  "FindSubscription env subid = None \<Longrightarrow>
   send env subid st dist = (Some (SubscriptionNotFound subid), st)"
  by (simp add: send_def)

lemma send_total:
  "FindSubscription env subid = Some subscription \<Longrightarrow>
   hashes (snd (send env subid st dist))
       (EventCacheDistCallBackCountPrefix env @ Itoa (Subscription.SubscriptionID subscription)) ''total'' =
     hashes st (EventCacheDistCallBackCountPrefix env @ Itoa (Subscription.SubscriptionID subscription)) ''total'' + 1"
  by (simp add: send_found increaseTotal_def increaseFailure_def statIncrease_def
      hashes_HIncrBy sendBody_hashes)

lemma send_failue:
  "FindSubscription env subid = Some subscription \<Longrightarrow>
   hashes (snd (send env subid st dist))
       (EventCacheDistCallBackCountPrefix env @ Itoa (Subscription.SubscriptionID subscription)) ''failue'' =
     hashes st (EventCacheDistCallBackCountPrefix env @ Itoa (Subscription.SubscriptionID subscription)) ''failue''
     + (if fst (sendBody env subscription
            (increaseTotal env st (Subscription.SubscriptionID subscription)) dist) \<noteq> None
        then 1 else 0)"
  by (simp add: send_found increaseTotal_def increaseFailure_def statIncrease_def
      hashes_HIncrBy sendBody_hashes)

text \<open>
  A response that the confirm predicate refuses, in either mode: send returns an error,
  and the deferred function finds errFinal nil, so that \<^verbatim>\<open>failue\<close> stays as it was.
\<close>

lemma send_not_confirmed_http:
  assumes "FindSubscription env subid = Some subscription"
    and "json_Marshal env dist = (distData, None)"
    and "http_NewRequest env ''POST'' (CallbackURL subscription) distData = (req, None)"
    and "DoWithTimeout env
           (if TimeOutSeconds subscription = 0 then defaultSendTimeout else GetTimeout subscription)
           req = (resp, None)"
    and "ReadAll resp = (respData, None)"
    and "ConfirmMode subscription = ConfirmModeHTTPStatus"
    and "Itoa (StatusCode resp) \<noteq> ConfirmPattern subscription"
  shows "fst (send env subid st dist) = Some (NotConfirmHTTP respData)
    \<and> hashes (snd (send env subid st dist))
         (EventCacheDistCallBackCountPrefix env @ Itoa (Subscription.SubscriptionID subscription)) ''failue'' =
       hashes st (EventCacheDistCallBackCountPrefix env @ Itoa (Subscription.SubscriptionID subscription)) ''failue''"
proof -
  obtain pattern e5 where a5: "regexp_Compile env (ConfirmPattern subscription) = (pattern, e5)"
    by (cases "regexp_Compile env (ConfirmPattern subscription)")
  show ?thesis
    using assms(1,6,7)
    by (simp add: send_found sendBody_unfold [OF assms(2-5) a5]
        increaseTotal_def statIncrease_def hashes_HIncrBy)
qed

lemma send_not_confirmed_regular:
  assumes "FindSubscription env subid = Some subscription"
    and "json_Marshal env dist = (distData, None)"
    and "http_NewRequest env ''POST'' (CallbackURL subscription) distData = (req, None)"
    and "DoWithTimeout env
           (if TimeOutSeconds subscription = 0 then defaultSendTimeout else GetTimeout subscription)
           req = (resp, None)"
    and "ReadAll resp = (respData, None)"
    and "ConfirmMode subscription \<noteq> ConfirmModeHTTPStatus"
    and "ConfirmMode subscription = ConfirmModeRegular"
    and "regexp_Compile env (ConfirmPattern subscription) = (pattern, None)"
    and "\<not> regexp_Match env pattern respData"
  shows "fst (send env subid st dist) = Some (NotConfirmRegular respData)
    \<and> hashes (snd (send env subid st dist))
         (EventCacheDistCallBackCountPrefix env @ Itoa (Subscription.SubscriptionID subscription)) ''failue'' =
       hashes st (EventCacheDistCallBackCountPrefix env @ Itoa (Subscription.SubscriptionID subscription)) ''failue''"
  using assms(1,6,7,9)
  by (simp add: send_found sendBody_unfold [OF assms(2-5) assms(8)]
      increaseTotal_def statIncrease_def hashes_HIncrBy)


lemma Itoa_7: "Itoa 7 = ''7''"
  by (simp add: Itoa_def digits.simps)

lemma Itoa_500: "Itoa 500 = ''500''"
  by (simp add: Itoa_def digits.simps)

text \<open>
  Claim C1. The claim has \<^verbatim>\<open>failue\<close> incremented once on every failure path, the
  refused confirmation in particular. In scenario S2 (pattern \<open>200\<close>, the callback
  answers 500) \<^verbatim>\<open>send\<close> posts the dist inst, increments \<^verbatim>\<open>total\<close>, returns
  the error "not confirm http pattern" and leaves \<^verbatim>\<open>failue\<close> at 0: the branch
  assigns \<^verbatim>\<open>errFinal = err\<close> with \<^verbatim>\<open>err\<close> nil (\<open>send_not_confirmed_http\<close>
  and \<open>send_not_confirmed_regular\<close> have it for every input).
\<close>

theorem send_S2_mismatch_not_counted:
  "fst (send S2_env 7 emptyState S1_dist) = Some (NotConfirmHTTP ''FAIL'')
   \<and> posts (snd (send S2_env 7 emptyState S1_dist)) =
       [\<lparr>Method = ''POST'', URL = ''http://x/'', Body = ''{dist}''\<rparr>]
   \<and> hashes (snd (send S2_env 7 emptyState S1_dist)) ''count:7'' ''total'' = 1
   \<and> hashes (snd (send S2_env 7 emptyState S1_dist)) ''count:7'' ''failue'' = 0"
  by (simp add: send_def sendBody_def Let_def S2_env_def S1_subscription_def emptyState_def
      increaseTotal_def increaseFailure_def statIncrease_def HIncrBy_def Itoa_7 Itoa_500
      defaultSendTimeout_def)

text \<open>
  Claim C6. In an iteration of the sender's loop that pops a dist inst whose
  \<^verbatim>\<open>ActionTime\<close> is more than 300 seconds before the clock reading (both in whole
  seconds since the epoch, as \<^verbatim>\<open>Unix()\<close> gives them), the item leaves the queue,
  no request is handed to the HTTP client, and no counter changes.
\<close>

theorem runStep_fuses_stale:
  assumes "IsMatch env (Itoa subid)"
    and "lists st (EventCacheSubscriberEventQueueKeyPrefix env @ Itoa subid) = distData # rest"
    and "json_Unmarshal env distData = (dist, None)"
    and "Unix now - Unix (ActionTime (EventInst dist)) > defaultFusingEventExpireSec"
  shows "runStep env subid now st =
           st\<lparr>lists := (lists st)(EventCacheSubscriberEventQueueKeyPrefix env @ Itoa subid := rest)\<rparr>
    \<and> posts (runStep env subid now st) = posts st
    \<and> hashes (runStep env subid now st) = hashes st
    \<and> defaultFusingEventExpireSec = 300"
  using assms by (simp add: runStep_def BLPop_def Let_def defaultFusingEventExpireSec_def)

theorem runStep_fuses_stale_witness:
  "lists (runStep S2_env 7 \<lparr>sec = 1301, nsec = 0\<rparr> queuedState) ''queue:7'' = []
   \<and> posts (runStep S2_env 7 \<lparr>sec = 1301, nsec = 0\<rparr> queuedState) = []
   \<and> hashes (runStep S2_env 7 \<lparr>sec = 1301, nsec = 0\<rparr> queuedState) ''count:7'' ''total'' = 0
   \<and> hashes (runStep S2_env 7 \<lparr>sec = 1301, nsec = 0\<rparr> queuedState) ''count:7'' ''failue'' = 0"
  using runStep_fuses_stale [where env = S2_env and subid = 7 and st = queuedState
      and distData = "''{dist}''" and rest = "[]" and dist = S1_dist
      and now = "\<lparr>sec = 1301, nsec = 0\<rparr>"]
  by (simp add: S2_env_def queuedState_def S1_dist_def Itoa_7 Unix_def defaultFusingEventExpireSec_def)

text \<open>An item that is not older than that, and decodes, is handed to \<^verbatim>\<open>send\<close>.\<close>

lemma runStep_sends_fresh:
  assumes "IsMatch env (Itoa subid)"
    and "lists st (EventCacheSubscriberEventQueueKeyPrefix env @ Itoa subid) = distData # rest"
    and "distData \<noteq> NilStr env" and "distData \<noteq> []"
    and "json_Unmarshal env distData = (dist, None)"
    and "Unix now - Unix (ActionTime (EventInst dist)) \<le> 300"
  shows "runStep env subid now st =
     snd (send env subid
       (st\<lparr>lists := (lists st)(EventCacheSubscriberEventQueueKeyPrefix env @ Itoa subid := rest)\<rparr>) dist)"
  using assms by (simp add: runStep_def BLPop_def Let_def defaultFusingEventExpireSec_def)

section \<open>Properties of the resource cursor tracker\<close>

lemma keepOldest_other: "ct' \<noteq> ct \<Longrightarrow> keepOldest ct c rc ct' = rc ct'"
  by (simp add: keepOldest_def split: option.splits)

lemma rangeSubids_readable:
  "readable env cursorKey v \<Longrightarrow>
   rangeSubids env ct cursorKey v rc =
     (None, fold (keepOldest ct) (bucketCursors env cursorKey v) rc)"
proof (induction v arbitrary: rc)
  case Nil
  show ?case by (simp add: bucketCursors_def)
next
  case (Cons subid v)
  obtain val e where g: "cache_Get env (subscriberCursorKey cursorKey subid) = (val, e)"
    by (cases "cache_Get env (subscriberCursorKey cursorKey subid)")
  obtain cursor e' where d: "Decode env val = (cursor, e')"
    by (cases "Decode env val")
  from Cons.prems have r: "readable env cursorKey v" and e: "e = None"
    and e': "val = [] \<or> e' = None"
    by (simp_all add: readable_def g d)
  have tl: "bucketCursors env cursorKey (subid # v) =
      (if val \<noteq> [] then [cursor] else []) @ bucketCursors env cursorKey v"
    by (simp add: bucketCursors_def g d)
  show ?case
    using e e' by (auto simp: g d tl Cons.IH [OF r])
qed

lemma rangeSubids_unreadable:
  "\<not> readable env cursorKey v \<Longrightarrow> fst (rangeSubids env ct cursorKey v rc) \<noteq> None"
proof (induction v arbitrary: rc)
  case Nil
  then show ?case by (simp add: readable_def)
next
  case (Cons subid v)
  obtain val e where g: "cache_Get env (subscriberCursorKey cursorKey subid) = (val, e)"
    by (cases "cache_Get env (subscriberCursorKey cursorKey subid)")
  obtain cursor e' where d: "Decode env val = (cursor, e')"
    by (cases "Decode env val")
  show ?case
  proof (cases "e = None \<and> (val = [] \<or> e' = None)")
    case True
    with Cons.prems have nr: "\<not> readable env cursorKey v"
      by (simp add: readable_def g d)
    from True show ?thesis
      using Cons.IH [OF nr, of rc] Cons.IH [OF nr, of "keepOldest ct cursor rc"]
      by (auto simp: g d)
  next
    case False
    then show ?thesis
      by (cases e; cases e') (auto simp: g d)
  qed
qed


lemma matchingKeys_Cons:
  "matchingKeys env ct (k # ks) =
     (if ParseCursorTypeFromEventType env (Split k CHR '':'' ! 1) = ct then [k] else [])
     @ matchingKeys env ct ks"
  by (simp add: matchingKeys_def)

lemma rangeSubscribers_readable:
  "allReadable env ct m keys \<Longrightarrow>
   rangeSubscribers env ct m keys rc =
     (None, fold (keepOldest ct) (persistedCursors env ct m keys) rc)"
proof (induction keys arbitrary: rc)
  case Nil
  show ?case by (simp add: persistedCursors_def matchingKeys_def)
next
  case (Cons k ks)
  from Cons.prems have len: "length (Split k CHR '':'') = 2"
    and rest: "allReadable env ct m ks"
    by (auto simp: allReadable_def matchingKeys_Cons)
  show ?case
  proof (cases "ParseCursorTypeFromEventType env (Split k CHR '':'' ! 1) = ct")
    case False
    then show ?thesis
      by (simp add: len Let_def Cons.IH [OF rest] persistedCursors_def matchingKeys_Cons)
  next
    case True
    with Cons.prems have "readable env (EventCacheSubscriberCursorPrefix env @ k) (bucket m k)"
      by (simp add: allReadable_def matchingKeys_Cons)
    from rangeSubids_readable [OF this] True show ?thesis
      by (simp add: len Let_def Cons.IH [OF rest] persistedCursors_def matchingKeys_Cons)
  qed
qed

lemma rangeSubscribers_unreadable:
  "\<not> allReadable env ct m keys \<Longrightarrow> fst (rangeSubscribers env ct m keys rc) \<noteq> None"
proof (induction keys arbitrary: rc)
  case Nil
  then show ?case by (simp add: allReadable_def matchingKeys_def)
next
  case (Cons k ks)
  show ?case
  proof (cases "length (Split k CHR '':'') = 2")
    case False
    then show ?thesis by (simp add: Let_def)
  next
    case len: True
    show ?thesis
    proof (cases "ParseCursorTypeFromEventType env (Split k CHR '':'' ! 1) = ct")
      case False
      with Cons.prems len have "\<not> allReadable env ct m ks"
        by (simp add: allReadable_def matchingKeys_Cons)
      from Cons.IH [OF this] False len show ?thesis
        by (simp add: Let_def)
    next
      case True
      show ?thesis
      proof (cases "readable env (EventCacheSubscriberCursorPrefix env @ k) (bucket m k)")
        case False
        from rangeSubids_unreadable [OF this, of ct rc] True len show ?thesis
          by (auto simp: Let_def split: prod.splits option.splits)
      next
        case r: True
        with Cons.prems len True have "\<not> allReadable env ct m ks"
          by (simp add: allReadable_def matchingKeys_Cons)
        from Cons.IH [OF this] rangeSubids_readable [OF r, of ct rc] True len show ?thesis
          by (simp add: Let_def)
      qed
    qed
  qed
qed

lemma fold_keepOldest_other:
  "ct' \<noteq> ct \<Longrightarrow> fold (keepOldest ct) cs rc ct' = rc ct'"
  by (induction cs arbitrary: rc) (simp_all add: keepOldest_other)

lemma fold_keepOldest_empty:
  "rc ct = None \<Longrightarrow> fold (keepOldest ct) [] rc ct = None"
  by simp

lemma fold_keepOldest_Some:
  "rc ct = Some c0 \<Longrightarrow>
   \<exists>c \<in> set (c0 # cs). fold (keepOldest ct) cs rc ct = Some c
      \<and> (\<forall>c' \<in> set (c0 # cs). Sec (ClusterTime c) \<le> Sec (ClusterTime c'))"
proof (induction cs arbitrary: rc c0)
  case Nil
  then show ?case by simp
next
  case (Cons a cs)
  show ?case
  proof (cases "Sec (ClusterTime a) < Sec (ClusterTime c0)")
    case True
    with Cons.prems have "keepOldest ct a rc ct = Some a"
      by (simp add: keepOldest_def)
    with Cons.IH [of "keepOldest ct a rc" a] True show ?thesis
      by fastforce
  next
    case False
    with Cons.prems have "keepOldest ct a rc ct = Some c0"
      by (simp add: keepOldest_def)
    with Cons.IH [of "keepOldest ct a rc" c0] False show ?thesis
      by fastforce
  qed
qed

lemma fold_keepOldest_min:
  "(candidates (rc ct) cs = [] \<longrightarrow> fold (keepOldest ct) cs rc ct = None)
   \<and> (candidates (rc ct) cs \<noteq> [] \<longrightarrow>
        (\<exists>c \<in> set (candidates (rc ct) cs). fold (keepOldest ct) cs rc ct = Some c
           \<and> (\<forall>c' \<in> set (candidates (rc ct) cs). Sec (ClusterTime c) \<le> Sec (ClusterTime c'))))"
proof (cases "rc ct")
  case (Some c0)
  with fold_keepOldest_Some [of rc ct c0 cs] show ?thesis
    by (simp add: candidates_def)
next
  case None
  show ?thesis
  proof (cases cs)
    case Nil
    with None show ?thesis by (simp add: candidates_def)
  next
    case (Cons a as)
    from None have "keepOldest ct a rc ct = Some a"
      by (simp add: keepOldest_def)
    with fold_keepOldest_Some [of "keepOldest ct a rc" ct a as] None Cons show ?thesis
      by (simp add: candidates_def)
  qed
qed

lemma bucketCursors_skips_empty:
  "fst (cache_Get env (subscriberCursorKey cursorKey subid)) = [] \<Longrightarrow>
   bucketCursors env cursorKey (subid # v) = bucketCursors env cursorKey v"
  by (simp add: bucketCursors_def)

lemma trackerEnv_readable:
  "allReadable (trackerEnv val) Host (subscribers trackerStart) [''o:hostcreate'']"
  by (simp add: allReadable_def readable_def matchingKeys_def trackerEnv_def trackerStart_def
      bucket_def subscriberCursorKey_def Itoa_7)

lemma trackerEnv_persisted:
  "persistedCursors (trackerEnv val) Host (subscribers trackerStart) [''o:hostcreate''] =
     (if val = [] then []
      else [\<lparr>ClusterTime = \<lparr>Sec = (if val = ''c5'' then 5 else 10), Nano = 0\<rparr>, Oid = val\<rparr>])"
  by (simp add: persistedCursors_def bucketCursors_def matchingKeys_def trackerEnv_def
      trackerStart_def bucket_def subscriberCursorKey_def Itoa_7)

text \<open>
  Claim C4, as the source has it. The claim takes the minimum over the persisted
  subscriber cursors alone. The function folds them into \<^verbatim>\<open>resourceCursors\<close>, which
  outlives the call: a second call, after subscriber 7 moved from second 5 to second 10,
  still returns the cursor of second 5, which is no longer a persisted cursor; and a call
  that finds no persisted cursor at all returns that stored cursor, not nil.
\<close>

theorem getResourceCursor_stale_counterexample:
  "fst (getResourceCursor (trackerEnv ''c10'') [''o:hostcreate'']
          (snd (getResourceCursor (trackerEnv ''c5'') [''o:hostcreate''] trackerStart Host)) Host) =
     (Some \<lparr>ClusterTime = \<lparr>Sec = 5, Nano = 0\<rparr>, Oid = ''c5''\<rparr>, None)
   \<and> persistedCursors (trackerEnv ''c10'') Host
        (subscribers (snd (getResourceCursor (trackerEnv ''c5'') [''o:hostcreate''] trackerStart Host)))
        [''o:hostcreate''] =
     [\<lparr>ClusterTime = \<lparr>Sec = 10, Nano = 0\<rparr>, Oid = ''c10''\<rparr>]
   \<and> fst (getResourceCursor (trackerEnv []) [''o:hostcreate'']
          (snd (getResourceCursor (trackerEnv ''c5'') [''o:hostcreate''] trackerStart Host)) Host) =
     (Some \<lparr>ClusterTime = \<lparr>Sec = 5, Nano = 0\<rparr>, Oid = ''c5''\<rparr>, None)
   \<and> persistedCursors (trackerEnv []) Host
        (subscribers (snd (getResourceCursor (trackerEnv ''c5'') [''o:hostcreate''] trackerStart Host)))
        [''o:hostcreate''] = []"
  by (simp add: getResourceCursor_def persistedCursors_def bucketCursors_def matchingKeys_def
      trackerEnv_def trackerStart_def bucket_def subscriberCursorKey_def Itoa_7 keepOldest_def Let_def)

text \<open>
  Claim C4, amended. When every key of the index splits into owner id and event type,
  every \<^verbatim>\<open>Get\<close> for a subscriber of a bucket of the cursor type returns no error
  and every non-empty value decodes, the function returns, without error, a cursor of
  the least \<^verbatim>\<open>ClusterTime.Sec\<close> among the cursor that \<^verbatim>\<open>resourceCursors\<close>
  already holds for the type and the non-empty persisted cursors of those subscribers
  (empty values are passed over), and nil when there is neither; it leaves that result
  in \<^verbatim>\<open>resourceCursors\<close>. Otherwise it returns an error and no cursor.
\<close>

theorem getResourceCursor_oldest:
  "(allReadable env ct (subscribers d) keys \<longrightarrow>
      (\<exists>r. fst (getResourceCursor env keys d ct) = (r, None)
         \<and> resourceCursors (snd (getResourceCursor env keys d ct)) ct = r
         \<and> (candidates (resourceCursors d ct) (persistedCursors env ct (subscribers d) keys) = []
              \<longrightarrow> r = None)
         \<and> (candidates (resourceCursors d ct) (persistedCursors env ct (subscribers d) keys) \<noteq> []
              \<longrightarrow> (\<exists>c \<in> set (candidates (resourceCursors d ct)
                                  (persistedCursors env ct (subscribers d) keys)).
                     r = Some c
                     \<and> (\<forall>c' \<in> set (candidates (resourceCursors d ct)
                                      (persistedCursors env ct (subscribers d) keys)).
                          Sec (ClusterTime c) \<le> Sec (ClusterTime c'))))))
   \<and> (\<not> allReadable env ct (subscribers d) keys \<longrightarrow>
        (\<exists>e. fst (getResourceCursor env keys d ct) = (None, Some e)))"
proof (intro conjI impI)
  assume ok: "allReadable env ct (subscribers d) keys"
  let ?cs = "persistedCursors env ct (subscribers d) keys"
  let ?rc = "fold (keepOldest ct) ?cs (resourceCursors d)"
  have run: "getResourceCursor env keys d ct = ((?rc ct, None), d\<lparr>resourceCursors := ?rc\<rparr>)"
    by (simp add: getResourceCursor_def rangeSubscribers_readable [OF ok])
  from fold_keepOldest_min [of "resourceCursors d" ct ?cs]
  show "\<exists>r. fst (getResourceCursor env keys d ct) = (r, None)
         \<and> resourceCursors (snd (getResourceCursor env keys d ct)) ct = r
         \<and> (candidates (resourceCursors d ct) ?cs = [] \<longrightarrow> r = None)
         \<and> (candidates (resourceCursors d ct) ?cs \<noteq> []
              \<longrightarrow> (\<exists>c \<in> set (candidates (resourceCursors d ct) ?cs).
                     r = Some c
                     \<and> (\<forall>c' \<in> set (candidates (resourceCursors d ct) ?cs).
                          Sec (ClusterTime c) \<le> Sec (ClusterTime c'))))"
    by (intro exI [of _ "?rc ct"]) (simp add: run)
next
  assume "\<not> allReadable env ct (subscribers d) keys"
  from rangeSubscribers_unreadable [OF this, of "resourceCursors d"]
  show "\<exists>e. fst (getResourceCursor env keys d ct) = (None, Some e)"
    by (auto simp: getResourceCursor_def split: prod.splits option.splits)
qed

theorem getResourceCursor_oldest_witness:
  "fst (getResourceCursor (trackerEnv ''c5'') [''o:hostcreate''] trackerStart Host) =
     (Some \<lparr>ClusterTime = \<lparr>Sec = 5, Nano = 0\<rparr>, Oid = ''c5''\<rparr>, None)
   \<and> fst (getResourceCursor (trackerEnv []) [''o:hostcreate''] trackerStart Host) = (None, None)
   \<and> (\<exists>e. fst (getResourceCursor (trackerEnv ''c5'') [''hostcreate''] trackerStart Host) =
            (None, Some e))"
proof -
  have rc: "resourceCursors trackerStart Host = None"
    by (simp add: trackerStart_def)
  have bad: "\<not> allReadable (trackerEnv ''c5'') Host (subscribers trackerStart) [''hostcreate'']"
    by (simp add: allReadable_def)
  show ?thesis
    using getResourceCursor_oldest [of "trackerEnv ''c5''" Host trackerStart "[''o:hostcreate'']"]
      getResourceCursor_oldest [of "trackerEnv []" Host trackerStart "[''o:hostcreate'']"]
      getResourceCursor_oldest [of "trackerEnv ''c5''" Host trackerStart "[''hostcreate'']"]
      trackerEnv_readable [of "''c5''"] trackerEnv_readable [of "[]"] bad
    by (auto simp: trackerEnv_persisted candidates_def rc)
qed

text \<open>
  With the redis client's \<^verbatim>\<open>Get\<close>, a subscriber whose cursor key is not in the store
  stops the run with an error, whereas one whose value is empty is passed over.
\<close>

lemma getResourceCursor_missing_key:
  "fst (getResourceCursor ((trackerEnv [])\<lparr>cache_Get := redis_Get Map.empty\<rparr>)
          [''o:hostcreate''] trackerStart Host) =
     (None, Some (QuerySubscriberCursor ''cursor:o:hostcreate:%!s(int64=7)''
                    (LibraryError ''redis: nil'')))"
  by (simp add: getResourceCursor_def trackerEnv_def trackerStart_def bucket_def
      subscriberCursorKey_def Itoa_7 redis_Get_def Let_def)

lemma getResourceCursor_empty_value:
  "fst (getResourceCursor ((trackerEnv [])\<lparr>cache_Get := redis_Get [''cursor:o:hostcreate:%!s(int64=7)'' \<mapsto> []]\<rparr>)
          [''o:hostcreate''] trackerStart Host) = (None, None)"
  by (simp add: getResourceCursor_def trackerEnv_def trackerStart_def bucket_def
      subscriberCursorKey_def Itoa_7 redis_Get_def Let_def)

end
